theory Spec2Isabelle
  imports Complex_Main "HOL-Library.Word" "HOL-Library.Multiset" "HOL-Library.Sublist"
begin

unbundle bit_operations_syntax

section \<open>applypatch.c: data model\<close>

text \<open>
  A shallow embedding of \<^verbatim>\<open>src/applypatch/applypatch.c\<close>.  Bytes are 8-bit words,
  \<^verbatim>\<open>size_t\<close> is the 32-bit unsigned word of the ARM targets the file was written for, and
  a C string is the \<^typ>\<open>string\<close> of its characters before the terminating NUL.
\<close>

type_synonym byte = "8 word"
type_synonym size_t = "32 word"

text \<open>\<^verbatim>\<open>SHA_DIGEST_SIZE\<close> of mincrypt/sha.h (the header is not part of the sources).\<close>

definition SHA_DIGEST_SIZE :: nat where
  "SHA_DIGEST_SIZE = 20"

text \<open>
  Reading \<^verbatim>\<open>*ps\<close>: the character under the pointer, the terminating NUL when the
  pointer stands at the end of the string.
\<close>

definition deref :: "string \<Rightarrow> char" where
  "deref ps = (case ps of [] \<Rightarrow> CHR 0x00 | c # _ \<Rightarrow> c)"

text \<open>\<^verbatim>\<open>memcmp(a, b, n) == 0\<close> on two buffers that hold at least \<open>n\<close> bytes.\<close>

definition memcmp_eq :: "byte list \<Rightarrow> byte list \<Rightarrow> nat \<Rightarrow> bool" where
  "memcmp_eq a b n = (take n a = take n b)"

section \<open>ParseSha1 and FindMatchingPatch\<close>

text \<open>
  The three character ranges of the loop body of \<^verbatim>\<open>ParseSha1\<close>; \<open>None\<close> is the
  \<^verbatim>\<open>return -1\<close> of the last branch.
\<close>

definition hex_digit :: "char \<Rightarrow> byte option" where
  "hex_digit c =
     (let n = (of_char c :: nat) in
      if of_char CHR ''0'' \<le> n \<and> n \<le> of_char CHR ''9'' then Some (of_nat (n - of_char CHR ''0''))
      else if of_char CHR ''a'' \<le> n \<and> n \<le> of_char CHR ''f'' then Some (of_nat (n - of_char CHR ''a'' + 10))
      else if of_char CHR ''A'' \<le> n \<and> n \<le> of_char CHR ''F'' then Some (of_nat (n - of_char CHR ''A'' + 10))
      else None)"

text \<open>
  The \<^verbatim>\<open>for\<close> loop of \<^verbatim>\<open>ParseSha1\<close> and the test after it.  \<open>digest\<close> holds the bytes
  written through \<^verbatim>\<open>pd\<close> so far: an even \<open>i\<close> stores \<^verbatim>\<open>digit << 4\<close> in a new byte, an odd
  \<open>i\<close> ors the digit into it.  \<open>None\<close> is the result \<^verbatim>\<open>-1\<close>, \<open>Some digest\<close> the result
  \<^verbatim>\<open>0\<close>.
\<close>

function ParseSha1_loop :: "nat \<Rightarrow> string \<Rightarrow> byte list \<Rightarrow> byte list option" where
  "ParseSha1_loop i ps digest =
     (if i < SHA_DIGEST_SIZE * 2 then
        (case hex_digit (deref ps) of
           None \<Rightarrow> None
         | Some digit \<Rightarrow>
             ParseSha1_loop (i + 1) (tl ps)
               (if i mod 2 = 0 then digest @ [push_bit 4 digit]
                else butlast digest @ [last digest OR digit]))
      else if deref ps \<noteq> CHR 0x00 then None
      else Some digest)"
  by pat_completeness auto
termination
  by (relation "measure (\<lambda>(i, ps, digest). SHA_DIGEST_SIZE * 2 - i)") auto

definition ParseSha1 :: "string \<Rightarrow> byte list option" where
  "ParseSha1 str = ParseSha1_loop 0 str []"

text \<open>
  \<^verbatim>\<open>FindMatchingPatch\<close>: the array \<^verbatim>\<open>patch_sha1_str\<close> with its length \<^verbatim>\<open>num_patches\<close> is a
  list; the result is the \<^verbatim>\<open>int\<close> the C function returns.
\<close>

fun FindMatchingPatch_from :: "nat \<Rightarrow> byte list \<Rightarrow> string list \<Rightarrow> int" where
  "FindMatchingPatch_from i sha1 [] = - 1"
| "FindMatchingPatch_from i sha1 (s # rest) =
     (case ParseSha1 s of
        Some patch_sha1 \<Rightarrow>
          if memcmp_eq patch_sha1 sha1 SHA_DIGEST_SIZE then int i
          else FindMatchingPatch_from (i + 1) sha1 rest
      | None \<Rightarrow> FindMatchingPatch_from (i + 1) sha1 rest)"

definition FindMatchingPatch :: "byte list \<Rightarrow> string list \<Rightarrow> int" where
  "FindMatchingPatch sha1 patch_sha1_str = FindMatchingPatch_from 0 sha1 patch_sha1_str"

section \<open>Free space\<close>

text \<open>
  \<^verbatim>\<open>FreeSpaceForFile\<close>: \<open>statfs\<close> is the system call's answer, \<open>None\<close> when it fails and
  \<open>(f_bsize, f_bfree)\<close> otherwise.  The product is returned as a \<^verbatim>\<open>size_t\<close>, and so is the
  \<^verbatim>\<open>-1\<close> of the error branch.
\<close>

definition FreeSpaceForFile :: "(nat \<times> nat) option \<Rightarrow> size_t" where
  "FreeSpaceForFile statfs =
     (case statfs of None \<Rightarrow> - 1 | Some (f_bsize, f_bfree) \<Rightarrow> of_nat (f_bsize * f_bfree))"

text \<open>
  The value assigned to \<^verbatim>\<open>enough_space\<close> when \<^verbatim>\<open>retry > 0\<close>: both operands are compared
  as \<^verbatim>\<open>size_t\<close>, and \<^verbatim>\<open>target_size * 3 / 2\<close> is computed in \<^verbatim>\<open>size_t\<close>
  (\<open>tgt_size\<close> is the parameter \<^verbatim>\<open>target_size\<close>, a name the word library uses already).
\<close>

definition enough_space_check :: "size_t \<Rightarrow> size_t \<Rightarrow> bool" where
  "enough_space_check free_space tgt_size =
     ((push_bit 10 256 :: size_t) < free_space \<and> (tgt_size * 3) div 2 < free_space)"

section \<open>The world outside the program\<close>

text \<open>
  The file system maps a path to a file (its bytes, mode, owner and group); the flash
  driver's partitions map a name to the bytes of the partition.  \<open>mtd_partitions_scanned\<close>
  is the static flag of the same name.
\<close>

record inode =
  bytes :: "byte list"
  i_mode :: nat
  i_uid :: nat
  i_gid :: nat

record world =
  files :: "string \<rightharpoonup> inode"
  mtd :: "string \<rightharpoonup> byte list"
  mtd_partitions_scanned :: bool

text \<open>
  The \<^verbatim>\<open>Value\<close> of edify/expr.h (the header is not part of the sources): a type tag and
  the bytes; \<^verbatim>\<open>size\<close> is the number of bytes.
\<close>

record Value =
  vtype :: int
  vdata :: "byte list"

definition VAL_BLOB :: int where
  "VAL_BLOB = 2"

text \<open>
  What the program calls and the sources do not hold: the digest of mincrypt, the C
  library's \<^verbatim>\<open>qsort\<close>, the system calls that may fail, the cache eviction hook, the flash
  driver's calls that may fail and the two patch decoders.  A decoder is given the world
  it runs in, the source bytes and the patch; it answers with the chunks of output it
  hands to its sink, in order, and the result it returns when the sink takes them all.
\<close>

record env =
  SHA :: "byte list \<Rightarrow> byte list"
  qsort :: "(nat \<Rightarrow> nat \<Rightarrow> int) \<Rightarrow> nat list \<Rightarrow> nat list"
  fopen_fails :: "string \<Rightarrow> bool"
  fread_short :: "string \<Rightarrow> bool"
  statfs :: "world \<Rightarrow> string \<Rightarrow> (nat \<times> nat) option"
  open_fails :: "world \<Rightarrow> string \<Rightarrow> bool"
  creat_mode :: nat
  sys_write :: "world \<Rightarrow> string \<Rightarrow> nat \<Rightarrow> int"
  chmod_fails :: "world \<Rightarrow> string \<Rightarrow> bool"
  chown_fails :: "world \<Rightarrow> string \<Rightarrow> bool"
  rename_fails :: "world \<Rightarrow> string \<Rightarrow> bool"
  MakeFreeSpaceOnCache :: "world \<Rightarrow> nat \<Rightarrow> int"
  malloc_fails :: "nat \<Rightarrow> bool"
  mtd_read_partition_fails :: "string \<Rightarrow> bool"
  mtd_write_partition_fails :: "string \<Rightarrow> bool"
  mtd_erase_blocks_fails :: "string \<Rightarrow> bool"
  mtd_write_close_fails :: "string \<Rightarrow> bool"
  ApplyBSDiffPatch :: "world \<Rightarrow> byte list \<Rightarrow> Value \<Rightarrow> byte list list \<times> int"
  ApplyImagePatch :: "world \<Rightarrow> byte list \<Rightarrow> Value \<Rightarrow> byte list list \<times> int"

text \<open>
  The incremental digest: a context is the bytes fed to it so far, and finalising it (or
  a copy of it) is the digest of those bytes.
\<close>

type_synonym SHA_CTX = "byte list"

definition SHA_init :: SHA_CTX where
  "SHA_init = []"

definition SHA_update :: "SHA_CTX \<Rightarrow> byte list \<Rightarrow> SHA_CTX" where
  "SHA_update ctx d = ctx @ d"

definition SHA_final :: "env \<Rightarrow> SHA_CTX \<Rightarrow> byte list" where
  "SHA_final e ctx = SHA e ctx"

section \<open>Loading a file or a partition\<close>

record stat_t =
  st_mode :: nat
  st_uid :: nat
  st_gid :: nat
  st_size :: nat

text \<open>
  \<^verbatim>\<open>FileContents\<close> of applypatch.h (the header is not part of the sources): the digest,
  the buffer, its length and the stat data.  A load that returns \<^verbatim>\<open>-1\<close> leaves
  \<^verbatim>\<open>data == NULL\<close> and nothing else that the callers read, so a loaded file is the value of
  a successful load.
\<close>

record FileContents =
  sha1 :: "byte list"
  data :: "byte list"
  size' :: nat
  st :: stat_t

text \<open>
  The result of a load: the contents (return value \<^verbatim>\<open>0\<close>), \<^verbatim>\<open>-1\<close>, or a run that
  leaves defined behaviour (a null pointer handed to \<^verbatim>\<open>strtol\<close>, \<^verbatim>\<open>strcmp\<close> or
  \<^verbatim>\<open>ParseSha1\<close>, or a read before the start of an array).
\<close>

datatype load_result = Loaded FileContents | LoadFailed | LoadUndefined

text \<open>
  \<^verbatim>\<open>strtok(s, ":")\<close>: skip the delimiters in front, fail at the end of the string,
  otherwise return the token and the rest of the string behind the delimiter that ended it.
\<close>

definition strtok :: "string \<Rightarrow> (string \<times> string) option" where
  "strtok s =
     (case dropWhile (\<lambda>c. c = CHR '':'') s of
        [] \<Rightarrow> None
      | t \<Rightarrow> Some (takeWhile (\<lambda>c. c \<noteq> CHR '':'') t, drop 1 (dropWhile (\<lambda>c. c \<noteq> CHR '':'') t)))"

text \<open>
  \<^verbatim>\<open>strtol(s, NULL, 10)\<close> of the C library with a 32-bit \<^verbatim>\<open>long\<close>: white space, a sign,
  the longest run of digits, and the value clamped to the range of \<^verbatim>\<open>long\<close>.
\<close>

definition isspace :: "char \<Rightarrow> bool" where
  "isspace c = (c = CHR '' '' \<or> (9 \<le> (of_char c :: nat) \<and> (of_char c :: nat) \<le> 13))"

definition isdigit :: "char \<Rightarrow> bool" where
  "isdigit c = (of_char CHR ''0'' \<le> (of_char c :: nat) \<and> (of_char c :: nat) \<le> of_char CHR ''9'')"

fun digits_value :: "nat \<Rightarrow> string \<Rightarrow> nat" where
  "digits_value acc [] = acc"
| "digits_value acc (c # cs) =
     (if isdigit c then digits_value (acc * 10 + (of_char c - of_char CHR ''0'')) cs else acc)"

definition strtol :: "string \<Rightarrow> int" where
  "strtol s =
     (let s1 = dropWhile isspace s;
          neg = (deref s1 = CHR ''-'');
          s2 = (if deref s1 = CHR ''-'' \<or> deref s1 = CHR ''+'' then tl s1 else s1);
          v = int (digits_value 0 s2)
      in if neg then max (- v) (- (2 ^ 31)) else min v (2 ^ 31 - 1))"

text \<open>\<^verbatim>\<open>compare_size_indices\<close>, with the static \<^verbatim>\<open>size_array\<close> as its first argument.\<close>

definition compare_size_indices :: "size_t list \<Rightarrow> nat \<Rightarrow> nat \<Rightarrow> int" where
  "compare_size_indices size_array aa bb =
     (if size_array ! aa < size_array ! bb then - 1
      else if size_array ! aa > size_array ! bb then 1
      else 0)"

text \<open>
  The loop of \<^verbatim>\<open>LoadMTDContents\<close> that reads the \<open>pairs\<close> (size, sha1) fields.  \<open>None\<close> as
  a digest string is the null pointer \<^verbatim>\<open>strtok\<close> returns when the fields run out.
\<close>

datatype parsed_pairs =
    Pairs "size_t list" "string option list"
  | BadSize
  | NullSize

fun parse_pairs :: "nat \<Rightarrow> string \<Rightarrow> size_t list \<Rightarrow> string option list \<Rightarrow> parsed_pairs" where
  "parse_pairs 0 rest sizes sha1sum = Pairs sizes sha1sum"
| "parse_pairs (Suc n) rest sizes sha1sum =
     (case strtok rest of
        None \<Rightarrow> NullSize
      | Some (size_str, rest1) \<Rightarrow>
          if (of_int (strtol size_str) :: size_t) = 0 then BadSize
          else (case strtok rest1 of
                  None \<Rightarrow> parse_pairs n [] (sizes @ [of_int (strtol size_str)]) (sha1sum @ [None])
                | Some (sha, rest2) \<Rightarrow>
                    parse_pairs n rest2 (sizes @ [of_int (strtol size_str)]) (sha1sum @ [Some sha])))"

text \<open>
  \<^verbatim>\<open>mtd_read_data\<close>: the bytes of the partition from the read position on, fewer than
  asked for at the end of the partition.
\<close>

definition mtd_read_data :: "byte list \<Rightarrow> nat \<Rightarrow> nat \<Rightarrow> byte list" where
  "mtd_read_data part pos len = take len (drop pos part)"

text \<open>
  The reading loop of \<^verbatim>\<open>LoadMTDContents\<close> over the pairs in the order of the sorted
  \<^verbatim>\<open>index\<close> array.  \<open>buf\<close> holds the bytes read so far (\<^verbatim>\<open>file->size\<close> is its length and
  the digest context has been fed exactly these bytes).
\<close>

datatype probe_result = Matched "byte list" | NoMatch | ProbeFailed | ProbeUndefined

fun probe :: "env \<Rightarrow> byte list \<Rightarrow> (size_t \<times> string option) list \<Rightarrow> byte list \<Rightarrow> probe_result" where
  "probe e part [] buf = NoMatch"
| "probe e part ((sz, sha1sum) # rest) buf =
     (let next = sz - of_nat (length buf);
          got = (if 0 < next then mtd_read_data part (length buf) (unat next) else [])
      in if 0 < next \<and> of_nat (length got) \<noteq> next then ProbeFailed
         else
           (let buf1 = buf @ got;
                sha_so_far = SHA_final e (SHA_update SHA_init buf1)
            in case sha1sum of
                 None \<Rightarrow> ProbeUndefined
               | Some str \<Rightarrow>
                   (case ParseSha1 str of
                      None \<Rightarrow> ProbeFailed
                    | Some parsed_sha \<Rightarrow>
                        if memcmp_eq sha_so_far parsed_sha SHA_DIGEST_SIZE then Matched buf1
                        else probe e part rest buf1)))"

text \<open>The number of colons in the file name.\<close>

definition count_colons :: "string \<Rightarrow> nat" where
  "count_colons filename = length (filter (\<lambda>c. c = CHR '':'') filename)"

text \<open>
  \<^verbatim>\<open>LoadMTDContents\<close>, first part: the tokens of the file name.  The test on the number
  of colons only prints a message, so it has no branch here.  \<open>(colons - 1) / 2\<close> is C's
  division of \<^verbatim>\<open>int\<close>s, truncating towards zero; on natural numbers \<open>(0 - 1) div 2 = 0\<close>
  agrees with it.  The result holds the partition name (\<open>part_name\<close> for the variable
  \<^verbatim>\<open>partition\<close>, a name the list library uses already; \<open>None\<close> for a null pointer),
  \<open>pairs\<close> and the arrays \<open>size\<close> and \<open>sha1sum\<close>.
\<close>

datatype locator =
    Located "string option" nat "size_t list" "string option list"
  | LocatorFailed
  | LocatorUndefined

definition parse_locator :: "string \<Rightarrow> locator" where
  "parse_locator filename =
     (case strtok filename of
        None \<Rightarrow> LocatorUndefined
      | Some (magic, rest) \<Rightarrow>
          if magic \<noteq> ''MTD'' then LocatorFailed
          else
            (let part_name = strtok rest;
                 colons = count_colons filename;
                 pairs = (colons - 1) div 2
             in case parse_pairs pairs (case part_name of None \<Rightarrow> [] | Some (_, r) \<Rightarrow> r) [] [] of
                  NullSize \<Rightarrow> LocatorUndefined
                | BadSize \<Rightarrow> LocatorFailed
                | Pairs sizes sha1sum \<Rightarrow> Located (map_option fst part_name) pairs sizes sha1sum))"

text \<open>
  \<^verbatim>\<open>LoadMTDContents\<close>, second part: the sort of the \<^verbatim>\<open>index\<close> array, the partition and the
  reading loop.  With \<open>pairs = 0\<close> the size of the buffer is read from \<^verbatim>\<open>index[-1]\<close>.
\<close>

definition load_located ::
  "env \<Rightarrow> world \<Rightarrow> string option \<Rightarrow> nat \<Rightarrow> size_t list \<Rightarrow> string option list \<Rightarrow> load_result \<times> world" where
  "load_located e w part_name pairs sizes sha1sum =
     (let index = qsort e (compare_size_indices sizes) [0..<pairs];
          w1 = w\<lparr>mtd_partitions_scanned := True\<rparr>
      in case part_name of
           None \<Rightarrow> (LoadUndefined, w1)
         | Some name \<Rightarrow>
             (case mtd w1 name of
                None \<Rightarrow> (LoadFailed, w1)
              | Some part \<Rightarrow>
                  if mtd_read_partition_fails e name then (LoadFailed, w1)
                  else if pairs = 0 then (LoadUndefined, w1)
                  else
                    (case probe e part (map (\<lambda>i. (sizes ! i, sha1sum ! i)) index) [] of
                       ProbeUndefined \<Rightarrow> (LoadUndefined, w1)
                     | ProbeFailed \<Rightarrow> (LoadFailed, w1)
                     | NoMatch \<Rightarrow> (LoadFailed, w1)
                     | Matched buf \<Rightarrow>
                         (Loaded \<lparr>sha1 = SHA_final e (SHA_update SHA_init buf),
                                  data = buf, size' = length buf,
                                  st = \<lparr>st_mode = 420, st_uid = 0, st_gid = 0,
                                         st_size = 0\<rparr>\<rparr>, w1))))"

definition LoadMTDContents :: "env \<Rightarrow> world \<Rightarrow> string \<Rightarrow> load_result \<times> world" where
  "LoadMTDContents e w filename =
     (case parse_locator filename of
        LocatorUndefined \<Rightarrow> (LoadUndefined, w)
      | LocatorFailed \<Rightarrow> (LoadFailed, w)
      | Located name pairs sizes sha1sum \<Rightarrow> load_located e w name pairs sizes sha1sum)"

text \<open>
  The reading loop once more, returning what it looks at instead of what it loads: the
  values of \<^verbatim>\<open>file->size\<close> at which a pass reaches the comparison of the digests
  (\<^verbatim>\<open>memcmp\<close>), in the order of the passes.  A pass that leaves the function before the
  comparison (short read, digest string that does not parse) adds nothing.
\<close>

fun probe_lengths :: "env \<Rightarrow> byte list \<Rightarrow> (size_t \<times> string option) list \<Rightarrow> byte list \<Rightarrow> nat list" where
  "probe_lengths e part [] buf = []"
| "probe_lengths e part ((sz, sha1sum) # rest) buf =
     (let next = sz - of_nat (length buf);
          got = (if 0 < next then mtd_read_data part (length buf) (unat next) else [])
      in if 0 < next \<and> of_nat (length got) \<noteq> next then []
         else
           (let buf1 = buf @ got;
                sha_so_far = SHA_final e (SHA_update SHA_init buf1)
            in case sha1sum of
                 None \<Rightarrow> []
               | Some str \<Rightarrow>
                   (case ParseSha1 str of
                      None \<Rightarrow> []
                    | Some parsed_sha \<Rightarrow>
                        if memcmp_eq sha_so_far parsed_sha SHA_DIGEST_SIZE then [length buf1]
                        else length buf1 # probe_lengths e part rest buf1)))"

text \<open>
  The lengths \<^verbatim>\<open>LoadMTDContents\<close> compares a digest at: the loop above, run as
  \<^verbatim>\<open>LoadMTDContents\<close> runs the reading loop, on the pairs in the order of the sorted
  \<^verbatim>\<open>index\<close> array; no length when the function returns before the loop.
\<close>

definition checked_lengths :: "env \<Rightarrow> world \<Rightarrow> string \<Rightarrow> nat list" where
  "checked_lengths e w filename =
     (case parse_locator filename of
        Located (Some name) pairs sizes sha1sum \<Rightarrow>
          (case mtd w name of
             None \<Rightarrow> []
           | Some part \<Rightarrow>
               if mtd_read_partition_fails e name then []
               else probe_lengths e part
                      (map (\<lambda>i. (sizes ! i, sha1sum ! i))
                         (qsort e (compare_size_indices sizes) [0..<pairs])) [])
      | _ \<Rightarrow> [])"

text \<open>
  \<^verbatim>\<open>LoadFileContents\<close>.  \<^verbatim>\<open>stat\<close> fails when the path names no file; \<^verbatim>\<open>fopen\<close> and
  \<^verbatim>\<open>fread\<close> fail when the environment says so.
\<close>

definition LoadFileContents :: "env \<Rightarrow> world \<Rightarrow> string \<Rightarrow> load_result \<times> world" where
  "LoadFileContents e w filename =
     (if take 4 filename = ''MTD:'' then LoadMTDContents e w filename
      else
        (case files w filename of
           None \<Rightarrow> (LoadFailed, w)
         | Some f \<Rightarrow>
             if fopen_fails e filename then (LoadFailed, w)
             else if fread_short e filename then (LoadFailed, w)
             else
               (Loaded \<lparr>sha1 = SHA e (bytes f), data = bytes f, size' = length (bytes f),
                        st = \<lparr>st_mode = i_mode f, st_uid = i_uid f, st_gid = i_gid f,
                               st_size = length (bytes f)\<rparr>\<rparr>, w)))"

section \<open>Writing files and partitions\<close>

text \<open>
  Modelled from the spec: the macro \<^verbatim>\<open>CACHE_TEMP_SOURCE\<close> of applypatch.h, which is not
  part of the sources; the spec names \<^verbatim>\<open>/cache/saved.file\<close>.
\<close>

definition CACHE_TEMP_SOURCE :: string where
  "CACHE_TEMP_SOURCE = ''/cache/saved.file''"

text \<open>
  \<^verbatim>\<open>open(path, O_WRONLY | O_CREAT | O_TRUNC)\<close>: an existing file is emptied, a missing one
  is created (the call passes no mode, so the mode is whatever the environment makes it).
  A file descriptor is the path it was opened on.
\<close>

definition sys_open :: "env \<Rightarrow> world \<Rightarrow> string \<Rightarrow> world option" where
  "sys_open e w path =
     (if open_fails e w path then None
      else Some (w\<lparr>files := (files w)(path \<mapsto>
             (case files w path of
                None \<Rightarrow> \<lparr>bytes = [], i_mode = creat_mode e, i_uid = 0, i_gid = 0\<rparr>
              | Some f \<Rightarrow> f\<lparr>bytes := []\<rparr>))\<rparr>))"

definition append_file :: "world \<Rightarrow> string \<Rightarrow> byte list \<Rightarrow> world" where
  "append_file w path d =
     (case files w path of
        None \<Rightarrow> w
      | Some f \<Rightarrow> w\<lparr>files := (files w)(path \<mapsto> f\<lparr>bytes := bytes f @ d\<rparr>)\<rparr>)"

definition unlink :: "world \<Rightarrow> string \<Rightarrow> world" where
  "unlink w path = w\<lparr>files := (files w)(path := None)\<rparr>"

definition chmod :: "env \<Rightarrow> world \<Rightarrow> string \<Rightarrow> nat \<Rightarrow> world option" where
  "chmod e w path m =
     (case files w path of
        None \<Rightarrow> None
      | Some f \<Rightarrow>
          if chmod_fails e w path then None
          else Some (w\<lparr>files := (files w)(path \<mapsto> f\<lparr>i_mode := m\<rparr>)\<rparr>))"

definition chown :: "env \<Rightarrow> world \<Rightarrow> string \<Rightarrow> nat \<Rightarrow> nat \<Rightarrow> world option" where
  "chown e w path u g =
     (case files w path of
        None \<Rightarrow> None
      | Some f \<Rightarrow>
          if chown_fails e w path then None
          else Some (w\<lparr>files := (files w)(path \<mapsto> f\<lparr>i_uid := u, i_gid := g\<rparr>)\<rparr>))"

definition rename :: "env \<Rightarrow> world \<Rightarrow> string \<Rightarrow> string \<Rightarrow> world option" where
  "rename e w old new =
     (case files w old of
        None \<Rightarrow> None
      | Some f \<Rightarrow>
          if rename_fails e w old then None
          else Some (w\<lparr>files := ((files w)(old := None))(new \<mapsto> f)\<rparr>))"

text \<open>
  \<^verbatim>\<open>FileSink\<close>: the loop calls \<^verbatim>\<open>write\<close> until \<open>len\<close> bytes are written or a call
  returns no positive count.  \<^verbatim>\<open>write\<close> never takes more than it is asked to.
\<close>

function FileSink :: "env \<Rightarrow> string \<Rightarrow> byte list \<Rightarrow> nat \<Rightarrow> nat \<Rightarrow> world \<Rightarrow> nat \<times> world" where
  "FileSink e fd d len done w =
     (if done < len then
        (let wrote = sys_write e w fd (len - done)
         in if wrote \<le> 0 then (done, w)
            else
              (let n = min (nat wrote) (len - done)
               in FileSink e fd d len (done + n) (append_file w fd (take n (drop done d)))))
      else (done, w))"
  by pat_completeness auto
termination
  by (relation "measure (\<lambda>(e, fd, d, len, done, w). len - done)") auto

text \<open>\<^verbatim>\<open>SaveFileContents\<close>: the result and the world it leaves.\<close>

definition SaveFileContents :: "env \<Rightarrow> world \<Rightarrow> string \<Rightarrow> FileContents \<Rightarrow> int \<times> world" where
  "SaveFileContents e w filename file =
     (case sys_open e w filename of
        None \<Rightarrow> (- 1, w)
      | Some w1 \<Rightarrow>
          (case FileSink e filename (data file) (size' file) 0 w1 of
             (bytes_written, w2) \<Rightarrow>
               if bytes_written \<noteq> size' file then (- 1, w2)
               else
                 (case chmod e w2 filename (st_mode (st file)) of
                    None \<Rightarrow> (- 1, w2)
                  | Some w3 \<Rightarrow>
                      (case chown e w3 filename (st_uid (st file)) (st_gid (st file)) of
                         None \<Rightarrow> (- 1, w3)
                       | Some w4 \<Rightarrow> (0, w4)))))"

text \<open>
  \<^verbatim>\<open>WriteToMTDPartition\<close>.  The partition name is the text between the first colon and
  the next one.  Modelled from the spec: the flash driver (mtdutils) is not part of the
  sources; a write replaces the front of the partition and takes no more bytes than the
  partition holds, and erasing the remaining blocks leaves \<open>0xFF\<close> behind the data.
\<close>

definition WriteToMTDPartition :: "env \<Rightarrow> world \<Rightarrow> byte list \<Rightarrow> nat \<Rightarrow> string \<Rightarrow> int \<times> world" where
  "WriteToMTDPartition e w d len target_mtd =
     (if CHR '':'' \<notin> set target_mtd then (- 1, w)
      else
        (let partition = takeWhile (\<lambda>c. c \<noteq> CHR '':'')
                           (drop 1 (dropWhile (\<lambda>c. c \<noteq> CHR '':'') target_mtd));
             w1 = w\<lparr>mtd_partitions_scanned := True\<rparr>
         in case mtd w1 partition of
              None \<Rightarrow> (- 1, w1)
            | Some part \<Rightarrow>
                if mtd_write_partition_fails e partition then (- 1, w1)
                else
                  (let written = min len (length part);
                       w2 = w1\<lparr>mtd := (mtd w1)(partition \<mapsto> take written d @ drop written part)\<rparr>
                   in if written \<noteq> len then (- 1, w2)
                      else if mtd_erase_blocks_fails e partition then (- 1, w2)
                      else
                        (let w3 = w2\<lparr>mtd := (mtd w2)(partition \<mapsto>
                                      take written d @ replicate (length part - written) 0xFF)\<rparr>
                         in if mtd_write_close_fails e partition then (- 1, w3)
                            else (0, w3)))))"

section \<open>Sinks and decoders\<close>

text \<open>
  \<^verbatim>\<open>MemorySinkInfo\<close> and \<^verbatim>\<open>MemorySink\<close>.  \<open>buffer\<close> holds the \<open>pos\<close> bytes copied so far
  (the rest of the allocated block is never read); \<open>size\<close> and \<open>pos\<close> are \<^verbatim>\<open>ssize_t\<close>.
\<close>

record MemorySinkInfo =
  buffer :: "byte list"
  msi_size :: int
  pos :: int

definition MemorySink :: "byte list \<Rightarrow> MemorySinkInfo \<Rightarrow> int \<times> MemorySinkInfo" where
  "MemorySink d msi =
     (if msi_size msi - pos msi < int (length d) then (- 1, msi)
      else (int (length d), msi\<lparr>buffer := buffer msi @ d, pos := pos msi + int (length d)\<rparr>))"

text \<open>
  Modelled from the spec: the decoders (\<^verbatim>\<open>ApplyBSDiffPatch\<close>, \<^verbatim>\<open>ApplyImagePatch\<close>) are not
  part of the sources.  A decoder pushes its output through the sink chunk by chunk and
  folds every chunk the sink took into the digest context; it checks the sink's result
  and reports failure when the sink took less than the chunk.
\<close>

fun push_chunks ::
  "(byte list \<Rightarrow> 's \<Rightarrow> int \<times> 's) \<Rightarrow> byte list list \<Rightarrow> int \<Rightarrow> 's \<Rightarrow> SHA_CTX \<Rightarrow> int \<times> 's \<times> SHA_CTX" where
  "push_chunks sink [] result s ctx = (result, s, ctx)"
| "push_chunks sink (c # cs) result s ctx =
     (case sink c s of
        (n, s1) \<Rightarrow>
          if n < int (length c) then (1, s1, ctx)
          else push_chunks sink cs result s1 (SHA_update ctx c))"

text \<open>The sink \<^verbatim>\<open>FileSink\<close> with its token, the descriptor of the staging file.\<close>

definition file_sink :: "env \<Rightarrow> string \<Rightarrow> byte list \<Rightarrow> world \<Rightarrow> int \<times> world" where
  "file_sink e fd d w = (case FileSink e fd d (length d) 0 w of (n, w1) \<Rightarrow> (int n, w1))"

text \<open>
  The dispatch on the first eight bytes of the patch: the decoder's chunks and result, or
  \<open>None\<close> for an unknown format.
\<close>

definition patch_magic :: "string \<Rightarrow> byte list" where
  "patch_magic s = map (\<lambda>c. of_nat (of_char c)) s"

definition decoder_for ::
  "env \<Rightarrow> Value \<Rightarrow> (world \<Rightarrow> byte list \<Rightarrow> Value \<Rightarrow> byte list list \<times> int) option" where
  "decoder_for e patch =
     (if 8 \<le> length (vdata patch) \<and> take 8 (vdata patch) = patch_magic ''BSDIFF40''
      then Some (ApplyBSDiffPatch e)
      else if 8 \<le> length (vdata patch) \<and> take 8 (vdata patch) = patch_magic ''IMGDIFF2''
      then Some (ApplyImagePatch e)
      else None)"

section \<open>applypatch\<close>

text \<open>
  What a call of \<^verbatim>\<open>applypatch\<close> comes to: the value it returns and the world it leaves,
  or a run that leaves defined behaviour.
\<close>

datatype outcome = Return int world | Undefined

text \<open>
  The local variables the retry loop reads.  \<open>source_file = None\<close> stands for a
  \<^verbatim>\<open>source_file\<close> whose buffer is null or has been freed (the branch that falls back to
  the cache copy frees it); \<open>source_patch_value\<close> and \<open>copy_patch_value\<close> are \<open>None\<close> for
  the null pointer.
\<close>

record selection =
  source_file :: "FileContents option"
  copy_file :: "FileContents option"
  source_patch_value :: "Value option"
  copy_patch_value :: "Value option"

datatype triage = Finished outcome | Selected world selection

text \<open>
  The fall-back to the cache copy (the block under \<^verbatim>\<open>if (source_patch_value == NULL)\<close>).
\<close>

definition try_copy :: "env \<Rightarrow> world \<Rightarrow> string list \<Rightarrow> Value list \<Rightarrow> triage" where
  "try_copy e w patch_sha1_str patch_data =
     (case LoadFileContents e w CACHE_TEMP_SOURCE of
        (Loaded cf, w1) \<Rightarrow>
          (let to_use = FindMatchingPatch (sha1 cf) patch_sha1_str
           in if 0 < to_use then
                (if nat to_use < length patch_data then
                   Selected w1 \<lparr>source_file = None, copy_file = Some cf,
                                source_patch_value = None,
                                copy_patch_value = Some (patch_data ! nat to_use)\<rparr>
                 else Finished Undefined)
              else Finished (Return 1 w1))
      | (LoadFailed, w1) \<Rightarrow> Finished (Return 1 w1)
      | (LoadUndefined, w1) \<Rightarrow> Finished Undefined)"

text \<open>
  The first part of \<^verbatim>\<open>applypatch\<close>, from the load of the target to the choice of the
  patch.  \<open>target_filename\<close> is the name after \<^verbatim>\<open>"-"\<close> has been replaced.
\<close>

definition choose_source ::
  "env \<Rightarrow> world \<Rightarrow> string \<Rightarrow> string \<Rightarrow> byte list \<Rightarrow> string list \<Rightarrow> Value list \<Rightarrow> triage" where
  "choose_source e w source_filename target_filename target_sha1 patch_sha1_str patch_data =
     (case LoadFileContents e w target_filename of
        (LoadUndefined, w1) \<Rightarrow> Finished Undefined
      | (r1, w1) \<Rightarrow>
          if (case r1 of Loaded f \<Rightarrow> memcmp_eq (sha1 f) target_sha1 SHA_DIGEST_SIZE | _ \<Rightarrow> False)
          then Finished (Return 0 w1)
          else
            (case (if r1 = LoadFailed \<or> target_filename \<noteq> source_filename
                   then LoadFileContents e w1 source_filename else (r1, w1)) of
               (LoadUndefined, w2) \<Rightarrow> Finished Undefined
             | (LoadFailed, w2) \<Rightarrow> try_copy e w2 patch_sha1_str patch_data
             | (Loaded sf, w2) \<Rightarrow>
                 (let to_use = FindMatchingPatch (sha1 sf) patch_sha1_str
                  in if 0 \<le> to_use then
                       (if nat to_use < length patch_data then
                          Selected w2 \<lparr>source_file = Some sf, copy_file = None,
                                       source_patch_value = Some (patch_data ! nat to_use),
                                       copy_patch_value = None\<rparr>
                        else Finished Undefined)
                     else try_copy e w2 patch_sha1_str patch_data)))"

text \<open>
  \<^verbatim>\<open>target_fs\<close>: the target name up to the first slash behind its first character, the
  whole name when there is none.
\<close>

definition target_fs_of :: "string \<Rightarrow> string" where
  "target_fs_of target_filename =
     (if CHR ''/'' \<in> set (tl target_filename)
      then take (Suc (length (takeWhile (\<lambda>c. c \<noteq> CHR ''/'') (tl target_filename)))) target_filename
      else target_filename)"

text \<open>The variables the loop changes.\<close>

record pass_state =
  pw :: world
  retry :: int
  made_copy :: bool

text \<open>
  The first part of the loop body: the back-up for a partition target, and the free
  space test (with the back-up and removal of the source) for a file target.  \<open>Inl\<close> is
  a \<^verbatim>\<open>return\<close> out of \<^verbatim>\<open>applypatch\<close>.
\<close>

definition backup_source :: "env \<Rightarrow> world \<Rightarrow> selection \<Rightarrow> outcome + world" where
  "backup_source e w sel =
     (case source_file sel of
        None \<Rightarrow> Inl Undefined
      | Some sf \<Rightarrow>
          if MakeFreeSpaceOnCache e w (size' sf) < 0 then Inl (Return 1 w)
          else
            (case SaveFileContents e w CACHE_TEMP_SOURCE sf of
               (r, w1) \<Rightarrow> if r < 0 then Inl (Return 1 w1) else Inr w1))"

definition make_space ::
  "env \<Rightarrow> string \<Rightarrow> string \<Rightarrow> size_t \<Rightarrow> selection \<Rightarrow> pass_state \<Rightarrow> outcome + pass_state" where
  "make_space e source_filename target_filename tgt_size sel s =
     (if take 4 target_filename = ''MTD:'' then
        (case backup_source e (pw s) sel of
           Inl out \<Rightarrow> Inl out
         | Inr w1 \<Rightarrow> Inr \<lparr>pw = w1, retry = 0, made_copy = True\<rparr>)
      else
        (let enough_space =
               (0 < retry s \<and>
                enough_space_check
                  (FreeSpaceForFile (statfs e (pw s) (target_fs_of target_filename))) tgt_size);
             retry1 = (if \<not> enough_space then 0 else retry s)
         in if \<not> enough_space \<and> source_patch_value sel \<noteq> None then
              (if take 4 source_filename = ''MTD:'' then Inl (Return 1 (pw s))
               else
                 (case backup_source e (pw s) sel of
                    Inl out \<Rightarrow> Inl out
                  | Inr w1 \<Rightarrow>
                      Inr \<lparr>pw = unlink w1 source_filename, retry = retry1, made_copy = True\<rparr>))
            else Inr (s\<lparr>retry := retry1\<rparr>)))"

text \<open>
  The middle of the loop body: the choice of \<^verbatim>\<open>source_to_use\<close> and \<^verbatim>\<open>patch\<close>, the sink,
  and the decoder.  The sink is the memory buffer (\<^verbatim>\<open>output < 0\<close>) or the staging file.
\<close>

datatype sink_used = MemoryBuffer MemorySinkInfo | StagingFile string

record decoded =
  result :: int
  dw :: world
  ctx :: SHA_CTX
  sink :: sink_used
  source_to_use :: FileContents

definition decode ::
  "env \<Rightarrow> string \<Rightarrow> size_t \<Rightarrow> selection \<Rightarrow> world \<Rightarrow> outcome + decoded" where
  "decode e target_filename tgt_size sel w =
     (case (if source_patch_value sel \<noteq> None then (source_file sel, source_patch_value sel)
            else (copy_file sel, copy_patch_value sel)) of
        (Some src, Some patch) \<Rightarrow>
          if vtype patch \<noteq> VAL_BLOB then Inl (Return 1 w)
          else if take 4 target_filename = ''MTD:'' then
            (if malloc_fails e (unat tgt_size) then Inl (Return 1 w)
             else
               (case decoder_for e patch of
                  None \<Rightarrow> Inl (Return 1 w)
                | Some dec \<Rightarrow>
                    (case dec w (data src) patch of
                       (chunks, res) \<Rightarrow>
                         (case push_chunks MemorySink chunks res
                                 \<lparr>buffer = [], msi_size = sint tgt_size, pos = 0\<rparr> SHA_init of
                            (r, msi, c) \<Rightarrow>
                              Inr \<lparr>result = r, dw = w, ctx = c, sink = MemoryBuffer msi,
                                   source_to_use = src\<rparr>))))
          else
            (let outname = target_filename @ ''.patch''
             in case sys_open e w outname of
                  None \<Rightarrow> Inl (Return 1 w)
                | Some w1 \<Rightarrow>
                    (case decoder_for e patch of
                       None \<Rightarrow> Inl (Return 1 w1)
                     | Some dec \<Rightarrow>
                         (case dec w1 (data src) patch of
                            (chunks, res) \<Rightarrow>
                              (case push_chunks (file_sink e outname) chunks res w1 SHA_init of
                                 (r, w2, c) \<Rightarrow>
                                   Inr \<lparr>result = r, dw = w2, ctx = c, sink = StagingFile outname,
                                        source_to_use = src\<rparr>))))
      | _ \<Rightarrow> Inl Undefined)"

text \<open>The code behind the loop: the digest test, the commit and the removal of the back-up.\<close>

definition commit ::
  "env \<Rightarrow> string \<Rightarrow> byte list \<Rightarrow> bool \<Rightarrow> decoded \<Rightarrow> outcome" where
  "commit e target_filename target_sha1 made_cp d =
     (if \<not> memcmp_eq (SHA_final e (ctx d)) target_sha1 SHA_DIGEST_SIZE then Return 1 (dw d)
      else
        (case (case sink d of
                 MemoryBuffer msi \<Rightarrow>
                   (case WriteToMTDPartition e (dw d) (buffer msi) (nat (pos msi)) target_filename of
                      (r, w1) \<Rightarrow> if r \<noteq> 0 then Inl w1 else Inr w1)
               | StagingFile outname \<Rightarrow>
                   (case chmod e (dw d) outname (st_mode (st (source_to_use d))) of
                      None \<Rightarrow> Inl (dw d)
                    | Some w1 \<Rightarrow>
                        (case chown e w1 outname (st_uid (st (source_to_use d)))
                                (st_gid (st (source_to_use d))) of
                           None \<Rightarrow> Inl w1
                         | Some w2 \<Rightarrow>
                             (case rename e w2 outname target_filename of
                                None \<Rightarrow> Inl w2
                              | Some w3 \<Rightarrow> Inr w3)))) of
           Inl w1 \<Rightarrow> Return 1 w1
         | Inr w1 \<Rightarrow> Return 0 (if made_cp then unlink w1 CACHE_TEMP_SOURCE else w1)))"

text \<open>The removal of the staging file before a retry (\<^verbatim>\<open>if (outname != NULL) unlink(outname)\<close>).\<close>

definition unlink_outname :: "decoded \<Rightarrow> world" where
  "unlink_outname d =
     (case sink d of MemoryBuffer msi \<Rightarrow> dw d | StagingFile outname \<Rightarrow> unlink (dw d) outname)"

text \<open>
  The \<^verbatim>\<open>do ... while (retry-- > 0)\<close> loop with the code behind it.  A failed decoder
  returns when \<^verbatim>\<open>retry == 0\<close>; otherwise the staging file is removed and the loop test
  decides.  A decoder that succeeded leaves the loop (\<^verbatim>\<open>break\<close>).
\<close>

function patch_loop ::
  "env \<Rightarrow> string \<Rightarrow> string \<Rightarrow> byte list \<Rightarrow> size_t \<Rightarrow> selection \<Rightarrow> pass_state \<Rightarrow> outcome" where
  "patch_loop e source_filename target_filename target_sha1 tgt_size sel s =
     (case make_space e source_filename target_filename tgt_size sel s of
        Inl out \<Rightarrow> out
      | Inr s1 \<Rightarrow>
          (case decode e target_filename tgt_size sel (pw s1) of
             Inl out \<Rightarrow> out
           | Inr d \<Rightarrow>
               if result d \<noteq> 0 then
                 (if retry s1 = 0 then Return (if result d \<noteq> 0 then 1 else 0) (dw d)
                  else if 0 < retry s1 then
                    patch_loop e source_filename target_filename target_sha1 tgt_size sel
                      \<lparr>pw = unlink_outname d, retry = retry s1 - 1, made_copy = made_copy s1\<rparr>
                  else commit e target_filename target_sha1 (made_copy s1)
                         (d\<lparr>dw := unlink_outname d\<rparr>))
               else commit e target_filename target_sha1 (made_copy s1) d))"
  by pat_completeness auto
termination
  by (relation "measure (\<lambda>(e, source_filename, target_filename, target_sha1, tgt_size, sel, s).
                  nat (retry s))")
     (auto simp: make_space_def Let_def split: if_splits sum.splits)

text \<open>
  \<^verbatim>\<open>applypatch\<close>.  \<^verbatim>\<open>num_patches\<close> is the length of \<open>patch_sha1_str\<close>.  An empty target
  name makes \<^verbatim>\<open>strchr(target_filename+1, '/')\<close> read behind the string.
\<close>

definition applypatch ::
  "env \<Rightarrow> world \<Rightarrow> string \<Rightarrow> string \<Rightarrow> string \<Rightarrow> size_t \<Rightarrow> string list \<Rightarrow> Value list \<Rightarrow> outcome" where
  "applypatch e w source_filename target_name target_sha1_str tgt_size patch_sha1_str patch_data =
     (let target_filename = (if target_name = ''-'' then source_filename else target_name)
      in case ParseSha1 target_sha1_str of
           None \<Rightarrow> Return 1 w
         | Some target_sha1 \<Rightarrow>
             (case choose_source e w source_filename target_filename target_sha1
                     patch_sha1_str patch_data of
                Finished out \<Rightarrow> out
              | Selected w1 sel \<Rightarrow>
                  if target_filename = [] then Undefined
                  else patch_loop e source_filename target_filename target_sha1 tgt_size sel
                         \<lparr>pw = w1, retry = 1, made_copy = False\<rparr>))"

section \<open>A small environment to run the model in\<close>

text \<open>
  A stand-in digest (the first twenty bytes, padded with zeros), an insertion sort for
  \<^verbatim>\<open>qsort\<close>, system calls that succeed, and decoders that emit the source followed by the
  patch body in one chunk.
\<close>

definition test_SHA :: "byte list \<Rightarrow> byte list" where
  "test_SHA bs = take 20 (bs @ replicate 20 0)"

fun insort_by :: "(nat \<Rightarrow> nat \<Rightarrow> int) \<Rightarrow> nat \<Rightarrow> nat list \<Rightarrow> nat list" where
  "insort_by cmp x [] = [x]"
| "insort_by cmp x (y # ys) = (if cmp x y \<le> 0 then x # y # ys else y # insort_by cmp x ys)"

definition test_qsort :: "(nat \<Rightarrow> nat \<Rightarrow> int) \<Rightarrow> nat list \<Rightarrow> nat list" where
  "test_qsort cmp xs = foldr (insort_by cmp) xs []"

definition test_decoder :: "world \<Rightarrow> byte list \<Rightarrow> Value \<Rightarrow> byte list list \<times> int" where
  "test_decoder w src patch = ([src @ drop 8 (vdata patch)], 0)"

definition test_env :: env where
  "test_env =
     \<lparr>SHA = test_SHA, qsort = test_qsort,
      fopen_fails = (\<lambda>p. False), fread_short = (\<lambda>p. False),
      statfs = (\<lambda>w p. Some (4096, 1000)),
      open_fails = (\<lambda>w p. False), creat_mode = 384,
      sys_write = (\<lambda>w p n. int n),
      chmod_fails = (\<lambda>w p. False), chown_fails = (\<lambda>w p. False),
      rename_fails = (\<lambda>w p. False),
      MakeFreeSpaceOnCache = (\<lambda>w n. 0), malloc_fails = (\<lambda>n. False),
      mtd_read_partition_fails = (\<lambda>p. False), mtd_write_partition_fails = (\<lambda>p. False),
      mtd_erase_blocks_fails = (\<lambda>p. False), mtd_write_close_fails = (\<lambda>p. False),
      ApplyBSDiffPatch = test_decoder, ApplyImagePatch = test_decoder\<rparr>"

definition test_world :: "(string \<times> byte list) list \<Rightarrow> (string \<times> byte list) list \<Rightarrow> world" where
  "test_world fs parts =
     \<lparr>files = map_of (map (\<lambda>(p, b). (p, \<lparr>bytes = b, i_mode = 420, i_uid = 0, i_gid = 0\<rparr>)) fs),
      mtd = map_of parts, mtd_partitions_scanned = False\<rparr>"

text \<open>
  The same environment with decoders that emit the source in one chunk and then report a
  failure.
\<close>

definition failing_decoder :: "world \<Rightarrow> byte list \<Rightarrow> Value \<Rightarrow> byte list list \<times> int" where
  "failing_decoder w src patch = ([src], 1)"

definition failing_env :: env where
  "failing_env = test_env\<lparr>ApplyBSDiffPatch := failing_decoder, ApplyImagePatch := failing_decoder\<rparr>"

section \<open>Notions used to state the loader's properties\<close>

text \<open>
  A candidate is a pair of the arrays \<^verbatim>\<open>size\<close> and \<^verbatim>\<open>sha1sum\<close>.  Its digest matches
  a partition when the digest string parses and \<^verbatim>\<open>memcmp\<close> finds the digest of the
  prefix of that size equal to it; it is well formed when its digest string is there and
  parses; the reading loop stops at it when the partition is shorter than its size or its
  digest matches.  \<open>qsort_sorts\<close> is what the C standard promises of \<^verbatim>\<open>qsort\<close> with the
  comparison \<^verbatim>\<open>compare_size_indices\<close>: a permutation in the order of the comparison.
\<close>

definition digest_matches :: "env \<Rightarrow> byte list \<Rightarrow> size_t \<times> string option \<Rightarrow> bool" where
  "digest_matches e part c =
     (case snd c of
        None \<Rightarrow> False
      | Some str \<Rightarrow>
          (case ParseSha1 str of
             None \<Rightarrow> False
           | Some parsed_sha \<Rightarrow>
               memcmp_eq (SHA e (take (unat (fst c)) part)) parsed_sha SHA_DIGEST_SIZE))"

definition well_formed :: "size_t \<times> string option \<Rightarrow> bool" where
  "well_formed c = (case snd c of None \<Rightarrow> False | Some str \<Rightarrow> ParseSha1 str \<noteq> None)"

definition candidate_stops :: "env \<Rightarrow> byte list \<Rightarrow> size_t \<times> string option \<Rightarrow> bool" where
  "candidate_stops e part c = (length part < unat (fst c) \<or> digest_matches e part c)"

definition qsort_sorts :: "env \<Rightarrow> bool" where
  "qsort_sorts e =
     (\<forall>size_array xs.
        mset (qsort e (compare_size_indices size_array) xs) = mset xs \<and>
        sorted_wrt (\<lambda>a b. compare_size_indices size_array a b \<le> 0)
          (qsort e (compare_size_indices size_array) xs))"

text \<open>
  An entry of \<^verbatim>\<open>patch_sha1_str\<close> matches a digest when \<^verbatim>\<open>FindMatchingPatch\<close> would stop at
  it: the entry parses and \<^verbatim>\<open>memcmp\<close> finds the two digests equal.
\<close>

definition entry_matches :: "byte list \<Rightarrow> string \<Rightarrow> bool" where
  "entry_matches sha s =
     (case ParseSha1 s of
        None \<Rightarrow> False
      | Some patch_sha1 \<Rightarrow> memcmp_eq patch_sha1 sha SHA_DIGEST_SIZE)"

section \<open>The free space test\<close>

lemma unat_times3_div2: "unat ((t :: size_t) * 3 div 2) = (unat t * 3 mod 2 ^ 32) div 2"
  by (simp add: unat_div unat_word_ariths)

lemma enough_space_check_real:
  assumes "unat t * 3 < 2 ^ 32"
  shows "enough_space_check f t \<longleftrightarrow>
           (256 * 1024 < real (unat f) \<and> 1.5 * real (unat t) < real (unat f))"
proof -
  have a: "unat (t * 3 div 2) = unat t * 3 div 2"
    using assms by (simp add: unat_times3_div2)
  have b: "unat (push_bit 10 256 :: size_t) = 262144" by simp
  have c: "(unat t * 3 div 2 < unat f) \<longleftrightarrow> (1.5 * real (unat t) < real (unat f))"
  proof -
    have "(unat t * 3 div 2 < unat f) \<longleftrightarrow> (unat t * 3 < 2 * unat f)" by arith
    also have "\<dots> \<longleftrightarrow> (real (unat t * 3) < real (2 * unat f))" by (simp only: of_nat_less_iff)
    also have "\<dots> \<longleftrightarrow> (1.5 * real (unat t) < real (unat f))" by (simp add: mult.commute)
    finally show ?thesis .
  qed
  have d: "(262144 < unat f) \<longleftrightarrow> (256 * 1024 < real (unat f))"
  proof -
    have "(262144 < unat f) \<longleftrightarrow> (real 262144 < real (unat f))" by (simp only: of_nat_less_iff)
    then show ?thesis by simp
  qed
  show ?thesis
    unfolding enough_space_check_def word_less_nat_alt a b c d ..
qed

lemma enough_space_check_minus1: "enough_space_check (- 1) t"
proof -
  have "unat (t * 3 div 2) < 2 ^ 32 - 1"
    unfolding unat_times3_div2 by simp
  moreover have "unat (- 1 :: size_t) = 2 ^ 32 - 1"
    by (simp add: unsigned_minus_1_eq_mask mask_eq_exp_minus_1)
  ultimately show ?thesis
    unfolding enough_space_check_def word_less_nat_alt by simp
qed

lemma make_space_file_enough:
  assumes "take 4 tgt \<noteq> ''MTD:''" "0 < retry s"
    "enough_space_check (FreeSpaceForFile (statfs e (pw s) (target_fs_of tgt))) t"
  shows "make_space e src tgt t sel s = Inr s"
  using assms by (simp add: make_space_def)

lemma make_space_file_short:
  assumes "take 4 tgt \<noteq> ''MTD:''" "0 < retry s"
    "\<not> enough_space_check (FreeSpaceForFile (statfs e (pw s) (target_fs_of tgt))) t"
  shows "make_space e src tgt t sel s \<noteq> Inr s"
proof -
  have "\<And>w. \<lparr>pw = w, retry = 0, made_copy = True\<rparr> \<noteq> s"
    using assms(2) by (cases s) auto
  moreover have "s\<lparr>retry := 0\<rparr> \<noteq> s" using assms(2) by (cases s) auto
  ultimately show ?thesis
    using assms by (auto simp: make_space_def split: sum.splits)
qed

text \<open>
  C9.  When \<^verbatim>\<open>target_size * 3\<close> does not overflow \<^verbatim>\<open>size_t\<close>, the value the code assigns
  to \<^verbatim>\<open>enough_space\<close> is true exactly when the free space exceeds both 256 KiB and 1.5
  times the target size (compared as real numbers); and on a file target with a retry
  left, the loop body goes on without backing up or removing anything exactly when the
  free space the query returned passes that test.
\<close>

theorem enough_space_exact:
  "unat tgt_size * 3 < 2 ^ 32 \<Longrightarrow>
   (enough_space_check free_space tgt_size \<longleftrightarrow>
      256 * 1024 < real (unat free_space) \<and> 1.5 * real (unat tgt_size) < real (unat free_space)) \<and>
   (take 4 tgt \<noteq> ''MTD:'' \<and> 0 < retry s \<longrightarrow>
      (make_space e src tgt tgt_size sel s = Inr s \<longleftrightarrow>
         256 * 1024 < real (unat (FreeSpaceForFile (statfs e (pw s) (target_fs_of tgt)))) \<and>
         1.5 * real (unat tgt_size)
           < real (unat (FreeSpaceForFile (statfs e (pw s) (target_fs_of tgt))))))"
  using enough_space_check_real[of tgt_size] make_space_file_enough[of tgt s e tgt_size src sel]
    make_space_file_short[of tgt s e tgt_size src sel]
  by blast

theorem enough_space_exact_witness:
  "unat (1000 :: size_t) * 3 < 2 ^ 32 \<and>
   enough_space_check 300000 1000 \<and> \<not> enough_space_check 1400 1000 \<and>
   take 4 ''/system/app/Foo.apk'' \<noteq> ''MTD:'' \<and>
   0 < retry \<lparr>pw = test_world [] [], retry = 1, made_copy = False\<rparr> \<and>
   make_space test_env ''/system/app/Foo.odex'' ''/system/app/Foo.apk'' 1000
     \<lparr>source_file = None, copy_file = None, source_patch_value = None,
        copy_patch_value = None\<rparr>
     \<lparr>pw = test_world [] [], retry = 1, made_copy = False\<rparr>
     = Inr \<lparr>pw = test_world [] [], retry = 1, made_copy = False\<rparr>"
  using enough_space_exact[of 1000 300000 "''/system/app/Foo.apk''"
          "\<lparr>pw = test_world [] [], retry = 1, made_copy = False\<rparr>" test_env
          "''/system/app/Foo.odex''"
          "\<lparr>source_file = None, copy_file = None, source_patch_value = None,
        copy_patch_value = None\<rparr>"]
    enough_space_exact[of 1000 1400]
  by (simp add: test_env_def FreeSpaceForFile_def)

text \<open>
  C10.  When \<^verbatim>\<open>statfs\<close> fails, \<^verbatim>\<open>FreeSpaceForFile\<close> returns the largest \<^verbatim>\<open>size_t\<close>
  (\<open>2 ^ 32 - 1\<close>), the free space test is passed whatever the target size is, and the
  loop body of a file target with a retry left goes on with the state it was given:
  nothing is backed up, nothing is removed, and \<^verbatim>\<open>applypatch\<close> does not return.
\<close>

theorem statfs_failure_is_enough_space:
  "statfs e (pw s) (target_fs_of tgt) = None \<Longrightarrow> take 4 tgt \<noteq> ''MTD:'' \<Longrightarrow> 0 < retry s \<Longrightarrow>
   unat (FreeSpaceForFile (statfs e (pw s) (target_fs_of tgt))) = 2 ^ 32 - 1 \<and>
   enough_space_check (FreeSpaceForFile (statfs e (pw s) (target_fs_of tgt))) tgt_size \<and>
   make_space e src tgt tgt_size sel s = Inr s"
  using make_space_file_enough[of tgt s e tgt_size src sel] enough_space_check_minus1[of tgt_size]
  by (simp add: FreeSpaceForFile_def unsigned_minus_1_eq_mask mask_eq_exp_minus_1)

theorem statfs_failure_is_enough_space_witness:
  "statfs (test_env\<lparr>statfs := \<lambda>w p. None\<rparr>)
     (pw \<lparr>pw = test_world [] [], retry = 1, made_copy = False\<rparr>)
     (target_fs_of ''/system/app/Foo.apk'') = None \<and>
   take 4 ''/system/app/Foo.apk'' \<noteq> ''MTD:'' \<and>
   enough_space_check
     (FreeSpaceForFile (statfs (test_env\<lparr>statfs := \<lambda>w p. None\<rparr>) (test_world [] [])
        (target_fs_of ''/system/app/Foo.apk''))) 4000000000 \<and>
   make_space (test_env\<lparr>statfs := \<lambda>w p. None\<rparr>) ''/system/app/Foo.apk''
     ''/system/app/Foo.apk'' 4000000000
     \<lparr>source_file = None, copy_file = None, source_patch_value = None,
        copy_patch_value = None\<rparr>
     \<lparr>pw = test_world [] [], retry = 1, made_copy = False\<rparr>
   = Inr \<lparr>pw = test_world [] [], retry = 1, made_copy = False\<rparr>"
  using statfs_failure_is_enough_space[of "test_env\<lparr>statfs := \<lambda>w p. None\<rparr>"
          "\<lparr>pw = test_world [] [], retry = 1, made_copy = False\<rparr>" "''/system/app/Foo.apk''"
          4000000000 "''/system/app/Foo.apk''"
          "\<lparr>source_file = None, copy_file = None, source_patch_value = None,
        copy_patch_value = None\<rparr>"]
  by simp

section \<open>ParseSha1\<close>

text \<open>
  C2.  Forty hex digits followed by the end of the string parse to their twenty bytes.
  The same forty digits followed by \<^verbatim>\<open>:tag\<close> are refused: the test behind the loop
  returns \<^verbatim>\<open>-1\<close> for every character but the terminating NUL, although the comment above
  \<^verbatim>\<open>ParseSha1\<close> allows the form \<^verbatim>\<open><digest>:<anything>\<close>.
\<close>

theorem ParseSha1_rejects_tagged_digest:
  "ParseSha1 ''0123456789abcdefABCDEF0123456789abcdef01'' =
     Some [0x01, 0x23, 0x45, 0x67, 0x89, 0xab, 0xcd, 0xef, 0xAB, 0xCD,
           0xEF, 0x01, 0x23, 0x45, 0x67, 0x89, 0xab, 0xcd, 0xef, 0x01] \<and>
   ParseSha1 ''0123456789abcdefABCDEF0123456789abcdef01:tag'' = None"
  by code_simp

section \<open>The partition loader\<close>

lemma probe_step:
  assumes "length buf \<le> unat sz" "buf = take (length buf) part"
  shows "probe e part ((sz, s) # rest) buf =
     (if length part < unat sz then ProbeFailed
      else case s of None \<Rightarrow> ProbeUndefined
       | Some str \<Rightarrow> (case ParseSha1 str of None \<Rightarrow> ProbeFailed
          | Some d \<Rightarrow> if memcmp_eq (SHA e (take (unat sz) part)) d SHA_DIGEST_SIZE
                then Matched (take (unat sz) part) else probe e part rest (take (unat sz) part)))"
proof -
  have lb: "length buf \<le> length part"
    using arg_cong[where f=length, OF assms(2)] by simp
  have lt: "length buf < 2 ^ 32"
    using assms(1) unsigned_less[of sz, where 'a=nat] by (simp add: order.strict_trans1)
  have ub: "unat (of_nat (length buf) :: size_t) = length buf"
    using lt by (simp add: unat_of_nat)
  have le: "(of_nat (length buf) :: size_t) \<le> sz"
    using assms(1) ub by (simp add: word_le_nat_alt)
  have un: "unat (sz - of_nat (length buf)) = unat sz - length buf"
    using le ub by (simp add: unat_sub)
  have pos: "(0 < sz - of_nat (length buf)) = (length buf < unat sz)"
    using un by (simp add: word_less_nat_alt)
  show ?thesis
  proof (cases "length buf < unat sz")
    case False
    then have eq: "unat sz = length buf" using assms(1) by simp
    then have tk: "take (unat sz) part = buf" using assms(2) by simp
    have ns: "\<not> length part < unat sz" using eq lb by simp
    show ?thesis unfolding tk using False pos ns
      by (simp add: Let_def SHA_final_def SHA_update_def SHA_init_def)
  next
    case True
    let ?got = "mtd_read_data part (length buf) (unat (sz - of_nat (length buf)))"
    have lg: "length ?got = min (unat sz - length buf) (length part - length buf)"
      by (simp add: mtd_read_data_def un)
    show ?thesis
    proof (cases "length part < unat sz")
      case short: True
      then have "length ?got < unat (sz - of_nat (length buf))"
        using lg un True lb by simp
      then have "of_nat (length ?got) \<noteq> sz - of_nat (length buf)"
        using of_nat_inverse[of "length ?got" "sz - of_nat (length buf)"]
          unsigned_less[of "sz - of_nat (length buf)", where 'a=nat]
        by fastforce
      then show ?thesis using short True pos by (simp add: Let_def)
    next
      case long: False
      then have l2: "length ?got = unat (sz - of_nat (length buf))"
        using lg un by simp
      then have og: "of_nat (length ?got) = sz - of_nat (length buf)" by simp
      have bg: "take (unat sz) part = buf @ ?got"
      proof -
        have "take (unat sz) part = take (length buf) part @ take (unat sz - length buf) (drop (length buf) part)"
          using True by (metis le_add_diff_inverse less_imp_le_nat take_add)
        then show ?thesis using assms(2) by (simp add: mtd_read_data_def un)
      qed
      show ?thesis unfolding bg using long True pos og
        by (simp add: Let_def SHA_final_def SHA_update_def SHA_init_def)
    qed
  qed
qed

lemma probe_as_find:
  assumes "sorted (map fst cs)" "\<forall>c\<in>set cs. well_formed c"
    "\<forall>c\<in>set cs. length buf \<le> unat (fst c)" "buf = take (length buf) part"
  shows "probe e part cs buf =
     (case find (candidate_stops e part) cs of
        None \<Rightarrow> NoMatch
      | Some c \<Rightarrow> if length part < unat (fst c) then ProbeFailed
                  else Matched (take (unat (fst c)) part))"
  using assms
proof (induction cs arbitrary: buf)
  case Nil
  then show ?case by simp
next
  case (Cons c cs)
  obtain sz s where c: "c = (sz, s)" by (cases c)
  from Cons.prems(2) c obtain str d where s: "s = Some str" and d: "ParseSha1 str = Some d"
    by (auto simp: well_formed_def split: option.splits)
  have st: "probe e part ((sz, s) # cs) buf =
     (if length part < unat sz then ProbeFailed
      else if memcmp_eq (SHA e (take (unat sz) part)) d SHA_DIGEST_SIZE
                then Matched (take (unat sz) part) else probe e part cs (take (unat sz) part))"
    using probe_step[of buf sz part e s cs] Cons.prems(3,4) c s d by simp
  show ?case
  proof (cases "candidate_stops e part c")
    case True
    then show ?thesis using st c s d
      by (auto simp: candidate_stops_def digest_matches_def)
  next
    case False
    then have ns: "\<not> length part < unat sz" and nm: "\<not> memcmp_eq (SHA e (take (unat sz) part)) d SHA_DIGEST_SIZE"
      using c s d by (auto simp: candidate_stops_def digest_matches_def)
    have len: "length (take (unat sz) part) = unat sz" using ns by simp
    have "\<forall>c'\<in>set cs. unat sz \<le> unat (fst c')"
      using Cons.prems(1) c by (auto simp: word_le_nat_alt)
    then have ih: "probe e part cs (take (unat sz) part) =
       (case find (candidate_stops e part) cs of
        None \<Rightarrow> NoMatch
      | Some c \<Rightarrow> if length part < unat (fst c) then ProbeFailed
                  else Matched (take (unat (fst c)) part))"
      using Cons.IH[of "take (unat sz) part"] Cons.prems(1,2) len by simp
    show ?thesis using st ns nm ih False c by simp
  qed
qed


lemma find_sorted_le:
  "sorted (map fst xs) \<Longrightarrow> find P xs = Some x \<Longrightarrow> y \<in> set xs \<Longrightarrow> P y \<Longrightarrow> fst x \<le> fst y"
  by (induction xs) (auto split: if_splits)

lemma find_Some_in: "find P xs = Some x \<Longrightarrow> x \<in> set xs \<and> P x"
  by (induction xs) (auto split: if_splits)

lemma find_None_none: "find P xs = None \<Longrightarrow> y \<in> set xs \<Longrightarrow> \<not> P y"
  by (induction xs) (auto split: if_splits)

lemma probe_permuted:
  assumes "sorted (map fst xs)" "sorted (map fst ys)" "set xs = set ys"
    "\<forall>c\<in>set xs. well_formed c"
  shows "probe e part xs [] = probe e part ys []"
proof -
  let ?P = "candidate_stops e part"
  let ?R = "\<lambda>r. case r of None \<Rightarrow> NoMatch
      | Some c \<Rightarrow> if length part < unat (fst c) then ProbeFailed
                  else Matched (take (unat (fst c)) part)"
  have px: "probe e part xs [] = ?R (find ?P xs)"
    using probe_as_find[of xs "[]" part e] assms(1,4) by simp
  have py: "probe e part ys [] = ?R (find ?P ys)"
    using probe_as_find[of ys "[]" part e] assms(2,3,4) by simp
  have "?R (find ?P xs) = ?R (find ?P ys)"
  proof (cases "find ?P xs")
    case None
    then have "\<forall>y\<in>set ys. \<not> ?P y" using find_None_none[of ?P xs] assms(3) by blast
    then have "find ?P ys = None" by (simp add: find_None_iff)
    then show ?thesis using None by simp
  next
    case (Some c)
    then have c: "c \<in> set xs" "?P c" using find_Some_in[of ?P xs c] by auto
    have "find ?P ys \<noteq> None"
      using c assms(3) find_None_iff[of ?P ys] by blast
    then obtain c' where c': "find ?P ys = Some c'" by blast
    then have d: "c' \<in> set ys" "?P c'" using find_Some_in[of ?P ys c'] by auto
    have "fst c \<le> fst c'" using find_sorted_le[OF assms(1) Some] d assms(3) by simp
    moreover have "fst c' \<le> fst c" using find_sorted_le[OF assms(2) c'] c assms(3) by simp
    ultimately have "fst c = fst c'" by simp
    then show ?thesis using Some c' by simp
  qed
  then show ?thesis using px py by simp
qed

lemma parse_pairs_length:
  "parse_pairs n rest sizes shas = Pairs sizes' shas' \<Longrightarrow>
   length sizes' = length sizes + n \<and> length shas' = length shas + n"
  by (induction n rest sizes shas rule: parse_pairs.induct)
     (auto split: option.splits if_splits prod.splits)

lemma parse_locator_length:
  "parse_locator f = Located name n sizes shas \<Longrightarrow> length sizes = n \<and> length shas = n"
  using parse_pairs_length[of _ _ "[]" "[]"]
  by (auto simp: parse_locator_def Let_def split: option.splits if_splits parsed_pairs.splits prod.splits)

lemma sorted_index:
  assumes "qsort_sorts e"
  shows "sorted (map (\<lambda>i. sizes ! i) (qsort e (compare_size_indices sizes) xs))"
proof -
  have "sorted_wrt (\<lambda>a b. compare_size_indices sizes a b \<le> 0) (qsort e (compare_size_indices sizes) xs)"
    using assms by (simp add: qsort_sorts_def)
  then have "sorted_wrt (\<lambda>a b. sizes ! a \<le> sizes ! b) (qsort e (compare_size_indices sizes) xs)"
    by (rule sorted_wrt_mono_rel[rotated]) (auto simp: compare_size_indices_def split: if_splits)
  then show ?thesis by (simp add: sorted_map)
qed

lemma mset_index:
  assumes "qsort_sorts e" "length xs = n"
  shows "mset (map (\<lambda>i. xs ! i) (qsort e (compare_size_indices sizes) [0..<n])) = mset xs"
proof -
  have "mset (qsort e (compare_size_indices sizes) [0..<n]) = mset [0..<n]"
    using assms(1) unfolding qsort_sorts_def by blast
  then have "mset (map (\<lambda>i. xs ! i) (qsort e (compare_size_indices sizes) [0..<n])) = mset (map (\<lambda>i. xs ! i) [0..<n])"
    by (metis mset_map)
  moreover have "map (\<lambda>i. xs ! i) [0..<n] = xs"
    using assms(2) map_nth[of xs] by simp
  ultimately show ?thesis by (simp only:)
qed

lemma candidates_mset:
  assumes "qsort_sorts e" "length sizes = n" "length shas = n"
  shows "mset (map (\<lambda>i. (sizes ! i, shas ! i)) (qsort e (compare_size_indices sizes) [0..<n]))
          = mset (zip sizes shas)"
proof -
  have "map (\<lambda>i. (sizes ! i, shas ! i)) (qsort e (compare_size_indices sizes) [0..<n])
        = map (\<lambda>i. zip sizes shas ! i) (qsort e (compare_size_indices sizes) [0..<n])"
  proof (rule map_cong[OF refl])
    fix i assume "i \<in> set (qsort e (compare_size_indices sizes) [0..<n])"
    moreover have "mset (qsort e (compare_size_indices sizes) [0..<n]) = mset [0..<n]"
      using assms(1) unfolding qsort_sorts_def by blast
    ultimately have "i \<in> set [0..<n]" using mset_eq_setD by blast
    then have "i < n" by simp
    then show "(sizes ! i, shas ! i) = zip sizes shas ! i" using assms(2,3) by simp
  qed
  moreover have "mset (map (\<lambda>i. zip sizes shas ! i) (qsort e (compare_size_indices sizes) [0..<n]))
      = mset (zip sizes shas)"
    using mset_index[OF assms(1), of "zip sizes shas" n sizes] assms(2,3) by simp
  ultimately show ?thesis by (simp only:)
qed

lemma compare_le_iff: "(compare_size_indices sz a b \<le> 0) = (sz ! a \<le> sz ! b)"
  by (auto simp: compare_size_indices_def)

lemma mset_insort_by: "mset (insort_by cmp x ys) = add_mset x (mset ys)"
  by (induction ys) auto

lemma set_insort_by: "set (insort_by cmp x ys) = insert x (set ys)"
  by (induction ys) auto

lemma sorted_insort_by:
  "sorted_wrt (\<lambda>a b. sz ! a \<le> (sz ! b :: size_t)) ys \<Longrightarrow>
   sorted_wrt (\<lambda>a b. sz ! a \<le> sz ! b) (insort_by (compare_size_indices sz) x ys)"
  by (induction ys) (auto simp: compare_le_iff set_insort_by)

lemma test_qsort_sorts: "qsort_sorts test_env"
proof -
  have m: "mset (test_qsort cmp xs) = mset xs" for cmp xs
    unfolding test_qsort_def by (induction xs) (auto simp: mset_insort_by)
  have s: "sorted_wrt (\<lambda>a b. sz ! a \<le> (sz ! b :: size_t)) (test_qsort (compare_size_indices sz) xs)" for sz xs
    unfolding test_qsort_def by (induction xs) (auto simp: sorted_insort_by)
  show ?thesis
    unfolding qsort_sorts_def compare_le_iff using m s by (simp add: test_env_def)
qed

lemma load_located_eq:
  assumes "qsort_sorts e" "length sizes = n" "length shas = n" "0 < n"
    "mtd w name = Some part" "\<not> mtd_read_partition_fails e name"
  shows "load_located e w (Some name) n sizes shas =
     (case probe e part (map (\<lambda>i. (sizes ! i, shas ! i)) (qsort e (compare_size_indices sizes) [0..<n])) [] of
        Matched buf \<Rightarrow> (Loaded \<lparr>sha1 = SHA e buf, data = buf, size' = length buf,
                          st = \<lparr>st_mode = 420, st_uid = 0, st_gid = 0, st_size = 0\<rparr>\<rparr>,
                        w\<lparr>mtd_partitions_scanned := True\<rparr>)
      | ProbeUndefined \<Rightarrow> (LoadUndefined, w\<lparr>mtd_partitions_scanned := True\<rparr>)
      | _ \<Rightarrow> (LoadFailed, w\<lparr>mtd_partitions_scanned := True\<rparr>))"
  using assms
  by (simp add: load_located_def Let_def SHA_final_def SHA_update_def SHA_init_def
           split: probe_result.splits)

lemma candidates_sorted:
  assumes "qsort_sorts e"
  shows "sorted (map fst (map (\<lambda>i. (sizes ! i, shas ! i)) (qsort e (compare_size_indices sizes) xs)))"
  using sorted_index[OF assms, of sizes xs] by (simp add: comp_def)

text \<open>
  C5 (amended).  Let the locator parse to a partition name and a list of pairs whose digest
  strings are well formed, let the partition begin with the bytes \<open>C\<close>, and let the list
  hold the pair of \<open>length C\<close> and the digest of \<open>C\<close>.  If no pair of a smaller size
  matches the partition's prefix of that size, \<^verbatim>\<open>LoadMTDContents\<close> succeeds and returns
  exactly \<open>C\<close> with the digest of \<open>C\<close> and the faked stat data, whatever order \<^verbatim>\<open>qsort\<close>
  gives to pairs of equal size.  (The loop returns the smallest prefix that matches: see
  the counterexample behind the witness.)
\<close>

theorem loader_returns_smallest_match:
  assumes "qsort_sorts e"
    and "parse_locator filename = Located (Some name) pairs sizes sha1sum"
    and "mtd w name = Some part" and "\<not> mtd_read_partition_fails e name"
    and "\<forall>c\<in>set (zip sizes sha1sum). well_formed c"
    and "(of_nat (length C), Some hexC) \<in> set (zip sizes sha1sum)"
    and "ParseSha1 hexC = Some (SHA e C)"
    and "length C < 2 ^ 32" and "take (length C) part = C"
    and "\<forall>c\<in>set (zip sizes sha1sum). fst c < of_nat (length C) \<longrightarrow> \<not> digest_matches e part c"
  shows "LoadMTDContents e w filename =
           (Loaded \<lparr>sha1 = SHA e C, data = C, size' = length C,
                    st = \<lparr>st_mode = 420, st_uid = 0, st_gid = 0, st_size = 0\<rparr>\<rparr>,
            w\<lparr>mtd_partitions_scanned := True\<rparr>)"
proof -
  let ?cs = "map (\<lambda>i. (sizes ! i, sha1sum ! i)) (qsort e (compare_size_indices sizes) [0..<pairs])"
  let ?c = "(of_nat (length C) :: size_t, Some hexC)"
  let ?P = "candidate_stops e part"
  have len: "length sizes = pairs" "length sha1sum = pairs"
    using parse_locator_length[OF assms(2)] by auto
  have ms: "mset ?cs = mset (zip sizes sha1sum)"
    using candidates_mset[OF assms(1) len] .
  then have st: "set ?cs = set (zip sizes sha1sum)" by (rule mset_eq_setD)
  have pos: "0 < pairs" using assms(6) len by (cases pairs) auto
  have srt: "sorted (map fst ?cs)" using candidates_sorted[OF assms(1)] .
  have un: "unat (of_nat (length C) :: size_t) = length C"
    using assms(8) by (simp add: unat_of_nat)
  have lC: "length C \<le> length part"
    using arg_cong[where f=length, OF assms(9)] by simp
  have cm: "digest_matches e part ?c"
    using assms(7,9) un by (simp add: digest_matches_def memcmp_eq_def)
  then have cP: "?P ?c" by (simp add: candidate_stops_def)
  have wf: "\<forall>c\<in>set ?cs. well_formed c" using assms(5) unfolding st .
  have pr: "probe e part ?cs [] =
     (case find ?P ?cs of
        None \<Rightarrow> NoMatch
      | Some c \<Rightarrow> if length part < unat (fst c) then ProbeFailed
                  else Matched (take (unat (fst c)) part))"
    by (rule probe_as_find[OF srt wf]) simp_all
  have "find ?P ?cs \<noteq> None"
    using cP assms(6) st find_None_iff[of ?P ?cs] by blast
  then obtain c where c: "find ?P ?cs = Some c" by blast
  then have cin: "c \<in> set (zip sizes sha1sum)" and cst: "?P c"
    using find_Some_in[of ?P ?cs c] st by auto
  have le: "fst c \<le> of_nat (length C)"
    using find_sorted_le[OF srt c, of ?c] cP assms(6) st by simp
  have ns: "\<not> length part < unat (fst c)"
    using le un lC by (simp add: word_le_nat_alt)
  then have "digest_matches e part c" using cst by (simp add: candidate_stops_def)
  then have "\<not> fst c < of_nat (length C)" using assms(10) cin by blast
  then have "fst c = of_nat (length C)" using le by simp
  then have "probe e part ?cs [] = Matched C"
    using pr c ns un assms(9) by simp
  then show ?thesis
    using load_located_eq[OF assms(1) len pos assms(3,4)] assms(2)
    by (simp add: LoadMTDContents_def)
qed

theorem loader_returns_smallest_match_witness:
  "qsort_sorts test_env \<and>
   parse_locator ''MTD:boot:3:0102030000000000000000000000000000000000:1:ff00000000000000000000000000000000000000''
     = Located (Some ''boot'') 2 [3, 1]
         [Some ''0102030000000000000000000000000000000000'',
          Some ''ff00000000000000000000000000000000000000''] \<and>
   ParseSha1 ''0102030000000000000000000000000000000000'' = Some (SHA test_env [1, 2, 3]) \<and>
   \<not> digest_matches test_env [1, 2, 3, 4, 5, 6]
       (1, Some ''ff00000000000000000000000000000000000000'') \<and>
   fst (LoadMTDContents test_env (test_world [] [(''boot'', [1, 2, 3, 4, 5, 6])])
     ''MTD:boot:3:0102030000000000000000000000000000000000:1:ff00000000000000000000000000000000000000'')
   = Loaded \<lparr>sha1 = SHA test_env [1, 2, 3], data = [1, 2, 3], size' = 3,
             st = \<lparr>st_mode = 420, st_uid = 0, st_gid = 0, st_size = 0\<rparr>\<rparr>"
proof -
  have pl: "parse_locator ''MTD:boot:3:0102030000000000000000000000000000000000:1:ff00000000000000000000000000000000000000''
     = Located (Some ''boot'') 2 [3, 1]
         [Some ''0102030000000000000000000000000000000000'',
          Some ''ff00000000000000000000000000000000000000'']"
    by code_simp
  have p1: "ParseSha1 ''0102030000000000000000000000000000000000'' = Some (SHA test_env [1, 2, 3])"
    by code_simp
  have p2: "ParseSha1 ''ff00000000000000000000000000000000000000'' = Some (0xff # replicate 19 0)"
    by code_simp
  have nm: "\<not> digest_matches test_env [1, 2, 3, 4, 5, 6]
       (1, Some ''ff00000000000000000000000000000000000000'')"
    by (simp add: digest_matches_def p2 memcmp_eq_def test_env_def test_SHA_def SHA_DIGEST_SIZE_def)
  have wf: "\<forall>c\<in>set (zip [3, 1 :: size_t]
         [Some ''0102030000000000000000000000000000000000'',
          Some ''ff00000000000000000000000000000000000000'']). well_formed c"
    by (simp add: well_formed_def p1 p2)
  have sm: "\<forall>c\<in>set (zip [3, 1 :: size_t]
         [Some ''0102030000000000000000000000000000000000'',
          Some ''ff00000000000000000000000000000000000000'']).
       fst c < of_nat (length [1, 2, 3 :: byte]) \<longrightarrow> \<not> digest_matches test_env [1, 2, 3, 4, 5, 6] c"
    using nm by simp
  have "LoadMTDContents test_env (test_world [] [(''boot'', [1, 2, 3, 4, 5, 6])])
     ''MTD:boot:3:0102030000000000000000000000000000000000:1:ff00000000000000000000000000000000000000''
     = (Loaded \<lparr>sha1 = SHA test_env [1, 2, 3], data = [1, 2, 3], size' = length [1, 2, 3 :: byte],
             st = \<lparr>st_mode = 420, st_uid = 0, st_gid = 0, st_size = 0\<rparr>\<rparr>,
        (test_world [] [(''boot'', [1, 2, 3, 4, 5, 6])])\<lparr>mtd_partitions_scanned := True\<rparr>)"
    by (rule loader_returns_smallest_match[OF test_qsort_sorts pl _ _ wf _ p1 _ _ sm])
       (simp_all add: test_world_def test_env_def)
  then show ?thesis using test_qsort_sorts pl p1 nm by simp
qed

text \<open>
  The claim C5 as stated fails: the list below holds the pair of the three bytes
  \<open>[1, 2, 3]\<close> the partition begins with, and also the pair of its first byte; the loader
  returns the one byte.
\<close>

theorem loader_returns_shorter_prefix:
  "parse_locator ''MTD:boot:3:0102030000000000000000000000000000000000:1:0100000000000000000000000000000000000000''
     = Located (Some ''boot'') 2 [3, 1]
         [Some ''0102030000000000000000000000000000000000'',
          Some ''0100000000000000000000000000000000000000''] \<and>
   ParseSha1 ''0102030000000000000000000000000000000000'' = Some (SHA test_env [1, 2, 3]) \<and>
   take 3 [1, 2, 3, 4, 5, 6 :: byte] = [1, 2, 3] \<and>
   fst (LoadMTDContents test_env (test_world [] [(''boot'', [1, 2, 3, 4, 5, 6])])
     ''MTD:boot:3:0102030000000000000000000000000000000000:1:0100000000000000000000000000000000000000'')
   = Loaded \<lparr>sha1 = SHA test_env [1], data = [1], size' = 1,
             st = \<lparr>st_mode = 420, st_uid = 0, st_gid = 0, st_size = 0\<rparr>\<rparr>"
  by code_simp

lemma probe_lengths_step:
  assumes "length buf \<le> unat sz" "buf = take (length buf) part"
  shows "probe_lengths e part ((sz, s) # rest) buf =
     (if length part < unat sz then []
      else case s of None \<Rightarrow> []
       | Some str \<Rightarrow> (case ParseSha1 str of None \<Rightarrow> []
          | Some d \<Rightarrow> if memcmp_eq (SHA e (take (unat sz) part)) d SHA_DIGEST_SIZE
                then [unat sz] else unat sz # probe_lengths e part rest (take (unat sz) part)))"
proof -
  have lb: "length buf \<le> length part"
    using arg_cong[where f=length, OF assms(2)] by simp
  have lt: "length buf < 2 ^ 32"
    using assms(1) unsigned_less[of sz, where 'a=nat] by (simp add: order.strict_trans1)
  have ub: "unat (of_nat (length buf) :: size_t) = length buf"
    using lt by (simp add: unat_of_nat)
  have le: "(of_nat (length buf) :: size_t) \<le> sz"
    using assms(1) ub by (simp add: word_le_nat_alt)
  have un: "unat (sz - of_nat (length buf)) = unat sz - length buf"
    using le ub by (simp add: unat_sub)
  have pos: "(0 < sz - of_nat (length buf)) = (length buf < unat sz)"
    using un by (simp add: word_less_nat_alt)
  show ?thesis
  proof (cases "length buf < unat sz")
    case False
    then have eq: "unat sz = length buf" using assms(1) by simp
    then have tk: "take (unat sz) part = buf" using assms(2) by simp
    have ns: "\<not> length part < unat sz" using eq lb by simp
    show ?thesis unfolding tk using False pos ns eq
      by (simp add: Let_def SHA_final_def SHA_update_def SHA_init_def split: option.splits)
  next
    case True
    let ?got = "mtd_read_data part (length buf) (unat (sz - of_nat (length buf)))"
    have lg: "length ?got = min (unat sz - length buf) (length part - length buf)"
      by (simp add: mtd_read_data_def un)
    show ?thesis
    proof (cases "length part < unat sz")
      case short: True
      then have "length ?got < unat (sz - of_nat (length buf))"
        using lg un True lb by simp
      then have "of_nat (length ?got) \<noteq> sz - of_nat (length buf)"
        using of_nat_inverse[of "length ?got" "sz - of_nat (length buf)"]
          unsigned_less[of "sz - of_nat (length buf)", where 'a=nat]
        by fastforce
      then show ?thesis using short True pos by (simp add: Let_def)
    next
      case long: False
      then have l2: "length ?got = unat (sz - of_nat (length buf))"
        using lg un by simp
      then have og: "of_nat (length ?got) = sz - of_nat (length buf)" by simp
      have bg: "take (unat sz) part = buf @ ?got"
      proof -
        have "take (unat sz) part = take (length buf) part @ take (unat sz - length buf) (drop (length buf) part)"
          using True by (metis le_add_diff_inverse less_imp_le_nat take_add)
        then show ?thesis using assms(2) by (simp add: mtd_read_data_def un)
      qed
      have lb1: "length (buf @ ?got) = unat sz"
        using l2 un True by simp
      show ?thesis unfolding bg using long True pos og lb1
        by (simp add: Let_def SHA_final_def SHA_update_def SHA_init_def del: length_append
              split: option.splits)
    qed
  qed
qed

lemma probe_lengths_as_find:
  assumes "sorted (map fst cs)" "\<forall>c\<in>set cs. well_formed c"
    "\<forall>c\<in>set cs. length buf \<le> unat (fst c)" "buf = take (length buf) part"
  shows "probe_lengths e part cs buf =
     map (\<lambda>c. unat (fst c)) (takeWhile (\<lambda>c. \<not> candidate_stops e part c) cs) @
     (case find (candidate_stops e part) cs of
        None \<Rightarrow> []
      | Some c \<Rightarrow> if length part < unat (fst c) then [] else [unat (fst c)])"
  using assms
proof (induction cs arbitrary: buf)
  case Nil
  then show ?case by simp
next
  case (Cons c cs)
  obtain sz s where c: "c = (sz, s)" by (cases c)
  from Cons.prems(2) c obtain str d where s: "s = Some str" and d: "ParseSha1 str = Some d"
    by (auto simp: well_formed_def split: option.splits)
  have st: "probe_lengths e part ((sz, s) # cs) buf =
     (if length part < unat sz then []
      else if memcmp_eq (SHA e (take (unat sz) part)) d SHA_DIGEST_SIZE
                then [unat sz] else unat sz # probe_lengths e part cs (take (unat sz) part))"
    using probe_lengths_step[of buf sz part e s cs] Cons.prems(3,4) c s d by simp
  show ?case
  proof (cases "candidate_stops e part c")
    case True
    then show ?thesis using st c s d
      by (auto simp: candidate_stops_def digest_matches_def)
  next
    case False
    then have ns: "\<not> length part < unat sz" and nm: "\<not> memcmp_eq (SHA e (take (unat sz) part)) d SHA_DIGEST_SIZE"
      using c s d by (auto simp: candidate_stops_def digest_matches_def)
    have len: "length (take (unat sz) part) = unat sz" using ns by simp
    have "\<forall>c'\<in>set cs. unat sz \<le> unat (fst c')"
      using Cons.prems(1) c by (auto simp: word_le_nat_alt)
    then have ih: "probe_lengths e part cs (take (unat sz) part) =
       map (\<lambda>c. unat (fst c)) (takeWhile (\<lambda>c. \<not> candidate_stops e part c) cs) @
       (case find (candidate_stops e part) cs of
        None \<Rightarrow> []
      | Some c \<Rightarrow> if length part < unat (fst c) then [] else [unat (fst c)])"
      using Cons.IH[of "take (unat sz) part"] Cons.prems(1,2) len by simp
    show ?thesis using st ns nm ih False c by simp
  qed
qed

lemma trace_prefix:
  "prefix (map f (takeWhile (\<lambda>c. \<not> P c) cs) @
           (case find P cs of None \<Rightarrow> [] | Some c \<Rightarrow> if Q c then [] else [f c]))
          (map f cs)"
  by (induction cs) auto

lemma trace_all:
  "\<forall>c\<in>set cs. \<not> P c \<Longrightarrow>
   map f (takeWhile (\<lambda>c. \<not> P c) cs) @
     (case find P cs of None \<Rightarrow> [] | Some c \<Rightarrow> if Q c then [] else [f c]) = map f cs"
  by (induction cs) auto

lemma trace_last:
  "find P cs = Some c \<Longrightarrow> \<not> Q c \<Longrightarrow>
   last (map f (takeWhile (\<lambda>c. \<not> P c) cs) @
     (case find P cs of None \<Rightarrow> [] | Some c \<Rightarrow> if Q c then [] else [f c])) = f c"
  by simp

text \<open>
  C6 (amended).  \<^verbatim>\<open>LoadMTDContents\<close> visits the pairs in ascending order of their size,
  whatever their order in the locator, and leaves the loop at the first pair that matches
  or cannot be read.  For a locator whose digest strings are well formed: two locators of
  the same partition whose pairs are permutations of each other give the same result, also
  when pairs share a size; and where the partition is there and read,
  \<^item> the lengths at which a digest is compared are an initial segment of the sizes sorted
    ascending, and all of them when no pair matches and the partition holds every size;
  \<^item> the load succeeds exactly when some pair that fits into the partition matches, and it
    returns the prefix of the last length compared;
  \<^item> that length is at most the size of every matching pair that fits.
\<close>

theorem loader_checks_initial_segment:
  assumes "qsort_sorts e"
    and "parse_locator f1 = Located name n1 sizes1 shas1"
    and "parse_locator f2 = Located name n2 sizes2 shas2"
    and "mset (zip sizes1 shas1) = mset (zip sizes2 shas2)"
    and "\<forall>c\<in>set (zip sizes1 shas1). well_formed c"
  shows "LoadMTDContents e w f1 = LoadMTDContents e w f2 \<and>
         (\<forall>nm part.
            name = Some nm \<and> mtd w nm = Some part \<and> \<not> mtd_read_partition_fails e nm \<and> 0 < n1 \<longrightarrow>
            prefix (checked_lengths e w f1) (map unat (sort sizes1)) \<and>
            ((\<forall>c\<in>set (zip sizes1 shas1). \<not> candidate_stops e part c) \<longrightarrow>
               checked_lengths e w f1 = map unat (sort sizes1)) \<and>
            fst (LoadMTDContents e w f1) =
              (if \<exists>c\<in>set (zip sizes1 shas1). unat (fst c) \<le> length part \<and> digest_matches e part c
               then Loaded \<lparr>sha1 = SHA e (take (last (checked_lengths e w f1)) part),
                            data = take (last (checked_lengths e w f1)) part,
                            size' = last (checked_lengths e w f1),
                            st = \<lparr>st_mode = 420, st_uid = 0, st_gid = 0, st_size = 0\<rparr>\<rparr>
               else LoadFailed) \<and>
            (\<forall>c\<in>set (zip sizes1 shas1).
               unat (fst c) \<le> length part \<and> digest_matches e part c \<longrightarrow>
               checked_lengths e w f1 \<noteq> [] \<and> last (checked_lengths e w f1) \<le> unat (fst c)))"
proof -
  have len1: "length sizes1 = n1" "length shas1 = n1"
    using parse_locator_length[OF assms(2)] by auto
  have len2: "length sizes2 = n2" "length shas2 = n2"
    using parse_locator_length[OF assms(3)] by auto
  have "length (zip sizes1 shas1) = length (zip sizes2 shas2)"
    using assms(4) by (rule mset_eq_length)
  then have n: "n1 = n2" using len1 len2 by simp
  let ?cs1 = "map (\<lambda>i. (sizes1 ! i, shas1 ! i)) (qsort e (compare_size_indices sizes1) [0..<n2])"
  let ?cs2 = "map (\<lambda>i. (sizes2 ! i, shas2 ! i)) (qsort e (compare_size_indices sizes2) [0..<n2])"
  have m1: "mset ?cs1 = mset (zip sizes1 shas1)"
    using candidates_mset[OF assms(1) len1] n by simp
  have m2: "mset ?cs2 = mset (zip sizes2 shas2)"
    using candidates_mset[OF assms(1) len2] .
  have "mset ?cs1 = mset ?cs2" unfolding m1 m2 by (rule assms(4))
  then have st: "set ?cs1 = set ?cs2" by (rule mset_eq_setD)
  have st1: "set ?cs1 = set (zip sizes1 shas1)" using m1 by (rule mset_eq_setD)
  have wf: "\<forall>c\<in>set ?cs1. well_formed c"
    using assms(5) unfolding st1 .
  have srt: "sorted (map fst ?cs1)" using candidates_sorted[OF assms(1)] .
  have key: "probe e part ?cs1 [] = probe e part ?cs2 []" for part
    by (rule probe_permuted[OF srt candidates_sorted[OF assms(1)] st wf])
  have "load_located e w name n2 sizes1 shas1 = load_located e w name n2 sizes2 shas2"
    unfolding load_located_def Let_def key ..
  then have eq: "LoadMTDContents e w f1 = LoadMTDContents e w f2"
    using assms(2,3) n by (simp add: LoadMTDContents_def)
  have "mset (map (\<lambda>i. sizes1 ! i) (qsort e (compare_size_indices sizes1) [0..<n1])) = mset sizes1"
    using mset_index[OF assms(1) len1(1)] .
  then have "sort sizes1 = map (\<lambda>i. sizes1 ! i) (qsort e (compare_size_indices sizes1) [0..<n1])"
    using sorted_index[OF assms(1)] by (rule properties_for_sort)
  then have mf: "map (\<lambda>c. unat (fst c)) ?cs1 = map unat (sort sizes1)"
    using n by (simp add: comp_def)
  have rest: "prefix (checked_lengths e w f1) (map unat (sort sizes1)) \<and>
            ((\<forall>c\<in>set (zip sizes1 shas1). \<not> candidate_stops e part c) \<longrightarrow>
               checked_lengths e w f1 = map unat (sort sizes1)) \<and>
            fst (LoadMTDContents e w f1) =
              (if \<exists>c\<in>set (zip sizes1 shas1). unat (fst c) \<le> length part \<and> digest_matches e part c
               then Loaded \<lparr>sha1 = SHA e (take (last (checked_lengths e w f1)) part),
                            data = take (last (checked_lengths e w f1)) part,
                            size' = last (checked_lengths e w f1),
                            st = \<lparr>st_mode = 420, st_uid = 0, st_gid = 0, st_size = 0\<rparr>\<rparr>
               else LoadFailed) \<and>
            (\<forall>c\<in>set (zip sizes1 shas1).
               unat (fst c) \<le> length part \<and> digest_matches e part c \<longrightarrow>
               checked_lengths e w f1 \<noteq> [] \<and> last (checked_lengths e w f1) \<le> unat (fst c))"
    if nm: "name = Some nm" and pt: "mtd w nm = Some part"
      and rd: "\<not> mtd_read_partition_fails e nm" and pos: "0 < n1" for nm part
  proof -
    let ?P = "candidate_stops e part"
    let ?T = "map (\<lambda>c. unat (fst c)) (takeWhile (\<lambda>c. \<not> ?P c) ?cs1) @
       (case find ?P ?cs1 of None \<Rightarrow> []
        | Some c \<Rightarrow> if length part < unat (fst c) then [] else [unat (fst c)])"
    have cl: "checked_lengths e w f1 = probe_lengths e part ?cs1 []"
      using assms(2) nm pt rd n by (simp add: checked_lengths_def)
    have tr: "probe_lengths e part ?cs1 [] = ?T"
      by (rule probe_lengths_as_find[OF srt wf]) simp_all
    have ct: "checked_lengths e w f1 = ?T" using cl tr by simp
    have pr: "probe e part ?cs1 [] =
       (case find ?P ?cs1 of
          None \<Rightarrow> NoMatch
        | Some c \<Rightarrow> if length part < unat (fst c) then ProbeFailed
                    else Matched (take (unat (fst c)) part))"
      by (rule probe_as_find[OF srt wf]) simp_all
    have ld: "fst (LoadMTDContents e w f1) =
       (case find ?P ?cs1 of
          None \<Rightarrow> LoadFailed
        | Some c \<Rightarrow> if length part < unat (fst c) then LoadFailed
                    else Loaded \<lparr>sha1 = SHA e (take (unat (fst c)) part),
                            data = take (unat (fst c)) part,
                            size' = unat (fst c),
                            st = \<lparr>st_mode = 420, st_uid = 0, st_gid = 0, st_size = 0\<rparr>\<rparr>)"
      using load_located_eq[OF assms(1) len1, unfolded n, OF pos[unfolded n] pt rd] assms(2) nm n pr
      by (simp add: LoadMTDContents_def split: option.splits)
    have a: "prefix (checked_lengths e w f1) (map unat (sort sizes1))"
      unfolding ct mf[symmetric] by (rule trace_prefix)
    have b: "checked_lengths e w f1 = map unat (sort sizes1)"
      if "\<forall>c\<in>set (zip sizes1 shas1). \<not> candidate_stops e part c"
      unfolding ct mf[symmetric] by (rule trace_all) (use that st1 in simp)
    have found: "\<exists>c0. find ?P ?cs1 = Some c0 \<and> fst c0 \<le> fst c \<and> digest_matches e part c0
          \<and> unat (fst c0) \<le> length part"
      if c: "c \<in> set (zip sizes1 shas1)" "unat (fst c) \<le> length part" "digest_matches e part c" for c
    proof -
      have cP: "?P c" using c(3) by (simp add: candidate_stops_def)
      have "find ?P ?cs1 \<noteq> None"
        using cP c(1) st1 find_None_iff[of ?P ?cs1] by blast
      then obtain c0 where c0: "find ?P ?cs1 = Some c0" by blast
      have le: "fst c0 \<le> fst c"
        using find_sorted_le[OF srt c0, of c] cP c(1) st1 by simp
      then have ns: "unat (fst c0) \<le> length part" using c(2) by (simp add: word_le_nat_alt)
      have "?P c0" using find_Some_in[OF c0] by simp
      then have "digest_matches e part c0" using ns by (simp add: candidate_stops_def)
      then show ?thesis using c0 le ns by simp
    qed
    have conv: "\<exists>c\<in>set (zip sizes1 shas1). unat (fst c) \<le> length part \<and> digest_matches e part c"
      if "find ?P ?cs1 = Some c0" "\<not> length part < unat (fst c0)" for c0
    proof -
      have "c0 \<in> set ?cs1" "?P c0" using find_Some_in[OF that(1)] by auto
      then have "c0 \<in> set (zip sizes1 shas1)" "digest_matches e part c0"
        "unat (fst c0) \<le> length part"
        using that(2) unfolding st1 by (auto simp: candidate_stops_def)
      then show ?thesis by blast
    qed
    have c: "fst (LoadMTDContents e w f1) =
              (if \<exists>c\<in>set (zip sizes1 shas1). unat (fst c) \<le> length part \<and> digest_matches e part c
               then Loaded \<lparr>sha1 = SHA e (take (last (checked_lengths e w f1)) part),
                            data = take (last (checked_lengths e w f1)) part,
                            size' = last (checked_lengths e w f1),
                            st = \<lparr>st_mode = 420, st_uid = 0, st_gid = 0, st_size = 0\<rparr>\<rparr>
               else LoadFailed)"
    proof (cases "\<exists>c\<in>set (zip sizes1 shas1). unat (fst c) \<le> length part \<and> digest_matches e part c")
      case True
      then obtain c0 where c0: "find ?P ?cs1 = Some c0" "unat (fst c0) \<le> length part"
        using found by blast
      have "last (checked_lengths e w f1) = unat (fst c0)"
        unfolding ct using c0 by simp
      then show ?thesis using True ld c0 by simp
    next
      case False
      then show ?thesis using ld conv by (auto split: option.splits)
    qed
    have d: "checked_lengths e w f1 \<noteq> [] \<and> last (checked_lengths e w f1) \<le> unat (fst c)"
      if "c \<in> set (zip sizes1 shas1)" "unat (fst c) \<le> length part \<and> digest_matches e part c" for c
    proof -
      from found[of c] that obtain c0 where c0: "find ?P ?cs1 = Some c0" "fst c0 \<le> fst c"
        "unat (fst c0) \<le> length part" by blast
      then show ?thesis unfolding ct by (simp add: word_le_nat_alt)
    qed
    show ?thesis using a b c d by blast
  qed
  show ?thesis using eq rest by blast
qed

theorem loader_checks_initial_segment_witness:
  "qsort_sorts test_env \<and>
   parse_locator ''MTD:boot:5:ff00000000000000000000000000000000000000:3:dd00000000000000000000000000000000000000:1:ee00000000000000000000000000000000000000:3:0102030000000000000000000000000000000000''
     = Located (Some ''boot'') 4 [5, 3, 1, 3]
         [Some ''ff00000000000000000000000000000000000000'',
          Some ''dd00000000000000000000000000000000000000'',
          Some ''ee00000000000000000000000000000000000000'',
          Some ''0102030000000000000000000000000000000000''] \<and>
   parse_locator ''MTD:boot:3:0102030000000000000000000000000000000000:1:ee00000000000000000000000000000000000000:3:dd00000000000000000000000000000000000000:5:ff00000000000000000000000000000000000000''
     = Located (Some ''boot'') 4 [3, 1, 3, 5]
         [Some ''0102030000000000000000000000000000000000'',
          Some ''ee00000000000000000000000000000000000000'',
          Some ''dd00000000000000000000000000000000000000'',
          Some ''ff00000000000000000000000000000000000000''] \<and>
   checked_lengths test_env (test_world [] [(''boot'', [1, 2, 3, 4, 5, 6])])
     ''MTD:boot:5:ff00000000000000000000000000000000000000:3:dd00000000000000000000000000000000000000:1:ee00000000000000000000000000000000000000:3:0102030000000000000000000000000000000000'' = [1, 3, 3] \<and>
   map unat (sort [5, 3, 1, 3 :: size_t]) = [1, 3, 3, 5] \<and>
   prefix (checked_lengths test_env (test_world [] [(''boot'', [1, 2, 3, 4, 5, 6])])
             ''MTD:boot:5:ff00000000000000000000000000000000000000:3:dd00000000000000000000000000000000000000:1:ee00000000000000000000000000000000000000:3:0102030000000000000000000000000000000000'')
          (map unat (sort [5, 3, 1, 3 :: size_t])) \<and>
   LoadMTDContents test_env (test_world [] [(''boot'', [1, 2, 3, 4, 5, 6])])
     ''MTD:boot:5:ff00000000000000000000000000000000000000:3:dd00000000000000000000000000000000000000:1:ee00000000000000000000000000000000000000:3:0102030000000000000000000000000000000000''
   = LoadMTDContents test_env (test_world [] [(''boot'', [1, 2, 3, 4, 5, 6])])
     ''MTD:boot:3:0102030000000000000000000000000000000000:1:ee00000000000000000000000000000000000000:3:dd00000000000000000000000000000000000000:5:ff00000000000000000000000000000000000000'' \<and>
   fst (LoadMTDContents test_env (test_world [] [(''boot'', [1, 2, 3, 4, 5, 6])])
     ''MTD:boot:5:ff00000000000000000000000000000000000000:3:dd00000000000000000000000000000000000000:1:ee00000000000000000000000000000000000000:3:0102030000000000000000000000000000000000'')
   = Loaded \<lparr>sha1 = SHA test_env [1, 2, 3], data = [1, 2, 3], size' = 3,
             st = \<lparr>st_mode = 420, st_uid = 0, st_gid = 0, st_size = 0\<rparr>\<rparr>"
proof -
  have pl1: "parse_locator ''MTD:boot:5:ff00000000000000000000000000000000000000:3:dd00000000000000000000000000000000000000:1:ee00000000000000000000000000000000000000:3:0102030000000000000000000000000000000000''
     = Located (Some ''boot'') 4 [5, 3, 1, 3]
         [Some ''ff00000000000000000000000000000000000000'',
          Some ''dd00000000000000000000000000000000000000'',
          Some ''ee00000000000000000000000000000000000000'',
          Some ''0102030000000000000000000000000000000000'']"
    by code_simp
  have pl2: "parse_locator ''MTD:boot:3:0102030000000000000000000000000000000000:1:ee00000000000000000000000000000000000000:3:dd00000000000000000000000000000000000000:5:ff00000000000000000000000000000000000000''
     = Located (Some ''boot'') 4 [3, 1, 3, 5]
         [Some ''0102030000000000000000000000000000000000'',
          Some ''ee00000000000000000000000000000000000000'',
          Some ''dd00000000000000000000000000000000000000'',
          Some ''ff00000000000000000000000000000000000000'']"
    by code_simp
  have p1: "ParseSha1 ''0102030000000000000000000000000000000000'' \<noteq> None"
    by code_simp
  have p2: "ParseSha1 ''ff00000000000000000000000000000000000000'' \<noteq> None"
    by code_simp
  have p3: "ParseSha1 ''dd00000000000000000000000000000000000000'' \<noteq> None"
    by code_simp
  have p4: "ParseSha1 ''ee00000000000000000000000000000000000000'' \<noteq> None"
    by code_simp
  have wf: "\<forall>c\<in>set (zip [5, 3, 1, 3 :: size_t]
         [Some ''ff00000000000000000000000000000000000000'',
          Some ''dd00000000000000000000000000000000000000'',
          Some ''ee00000000000000000000000000000000000000'',
          Some ''0102030000000000000000000000000000000000'']). well_formed c"
    using p1 p2 p3 p4 by (simp add: well_formed_def)
  have ms: "mset (zip [5, 3, 1, 3 :: size_t]
         [Some ''ff00000000000000000000000000000000000000'',
          Some ''dd00000000000000000000000000000000000000'',
          Some ''ee00000000000000000000000000000000000000'',
          Some ''0102030000000000000000000000000000000000''])
     = mset (zip [3, 1, 3, 5 :: size_t]
         [Some ''0102030000000000000000000000000000000000'',
          Some ''ee00000000000000000000000000000000000000'',
          Some ''dd00000000000000000000000000000000000000'',
          Some ''ff00000000000000000000000000000000000000''])"
    by (simp add: add_mset_commute)
  have cl: "checked_lengths test_env (test_world [] [(''boot'', [1, 2, 3, 4, 5, 6])])
     ''MTD:boot:5:ff00000000000000000000000000000000000000:3:dd00000000000000000000000000000000000000:1:ee00000000000000000000000000000000000000:3:0102030000000000000000000000000000000000'' = [1, 3, 3]"
    by code_simp
  have so: "map unat (sort [5, 3, 1, 3 :: size_t]) = [1, 3, 3, 5]"
    by code_simp
  have ev: "fst (LoadMTDContents test_env (test_world [] [(''boot'', [1, 2, 3, 4, 5, 6])])
     ''MTD:boot:5:ff00000000000000000000000000000000000000:3:dd00000000000000000000000000000000000000:1:ee00000000000000000000000000000000000000:3:0102030000000000000000000000000000000000'')
   = Loaded \<lparr>sha1 = SHA test_env [1, 2, 3], data = [1, 2, 3], size' = 3,
             st = \<lparr>st_mode = 420, st_uid = 0, st_gid = 0, st_size = 0\<rparr>\<rparr>"
    by code_simp
  have mt: "mtd (test_world [] [(''boot'', [1, 2, 3, 4, 5, 6])]) ''boot'' = Some [1, 2, 3, 4, 5, 6]"
    by (simp add: test_world_def)
  have rd: "\<not> mtd_read_partition_fails test_env ''boot''"
    by (simp add: test_env_def)
  note th = loader_checks_initial_segment[OF test_qsort_sorts pl1 pl2 ms wf,
      of "(test_world [] [(''boot'', [1, 2, 3, 4, 5, 6])])"]
  have eq: "LoadMTDContents test_env (test_world [] [(''boot'', [1, 2, 3, 4, 5, 6])])
     ''MTD:boot:5:ff00000000000000000000000000000000000000:3:dd00000000000000000000000000000000000000:1:ee00000000000000000000000000000000000000:3:0102030000000000000000000000000000000000''
   = LoadMTDContents test_env (test_world [] [(''boot'', [1, 2, 3, 4, 5, 6])])
     ''MTD:boot:3:0102030000000000000000000000000000000000:1:ee00000000000000000000000000000000000000:3:dd00000000000000000000000000000000000000:5:ff00000000000000000000000000000000000000''"
    using th by (rule conjunct1)
  have "prefix (checked_lengths test_env (test_world [] [(''boot'', [1, 2, 3, 4, 5, 6])])
             ''MTD:boot:5:ff00000000000000000000000000000000000000:3:dd00000000000000000000000000000000000000:1:ee00000000000000000000000000000000000000:3:0102030000000000000000000000000000000000'')
          (map unat (sort [5, 3, 1, 3 :: size_t]))"
    using th[THEN conjunct2, rule_format, of "''boot''" "[1, 2, 3, 4, 5, 6]", THEN conjunct1] mt rd
    by simp
  then show ?thesis
    using test_qsort_sorts pl1 pl2 cl so eq ev by (intro conjI)
qed

text \<open>
  The claim C6 as stated fails twice.  With the sizes 3 and 1 and a match at size 1 the
  only length compared is 1, not the sorted sizes 1 and 3.  With two pairs of size 3, one
  of them with the digest string \<^verbatim>\<open>zz\<close>, the load fails when that pair comes first
  and succeeds when it comes second.
\<close>

theorem loader_stops_at_first_match:
  "parse_locator ''MTD:boot:3:0102030000000000000000000000000000000000:1:0100000000000000000000000000000000000000''
     = Located (Some ''boot'') 2 [3, 1]
         [Some ''0102030000000000000000000000000000000000'',
          Some ''0100000000000000000000000000000000000000''] \<and>
   checked_lengths test_env (test_world [] [(''boot'', [1, 2, 3, 4, 5, 6])])
     ''MTD:boot:3:0102030000000000000000000000000000000000:1:0100000000000000000000000000000000000000'' = [1] \<and>
   map unat (sort [3, 1 :: size_t]) = [1, 3] \<and>
   parse_locator ''MTD:boot:3:zz:3:0102030000000000000000000000000000000000''
     = Located (Some ''boot'') 2 [3, 3]
         [Some ''zz'', Some ''0102030000000000000000000000000000000000''] \<and>
   parse_locator ''MTD:boot:3:0102030000000000000000000000000000000000:3:zz''
     = Located (Some ''boot'') 2 [3, 3]
         [Some ''0102030000000000000000000000000000000000'', Some ''zz''] \<and>
   fst (LoadMTDContents test_env (test_world [] [(''boot'', [1, 2, 3, 4, 5, 6])])
     ''MTD:boot:3:zz:3:0102030000000000000000000000000000000000'') = LoadFailed \<and>
   fst (LoadMTDContents test_env (test_world [] [(''boot'', [1, 2, 3, 4, 5, 6])])
     ''MTD:boot:3:0102030000000000000000000000000000000000:3:zz'')
   = Loaded \<lparr>sha1 = SHA test_env [1, 2, 3], data = [1, 2, 3], size' = 3,
             st = \<lparr>st_mode = 420, st_uid = 0, st_gid = 0, st_size = 0\<rparr>\<rparr>"
  by code_simp

text \<open>
  C4.  The locator below has four colons, an even number, so the field count behind the
  partition name is odd.  \<^verbatim>\<open>LoadMTDContents\<close> prints its message and goes on: it takes
  \<open>(4 - 1) / 2 = 1\<close> pair, reads the partition and returns the three bytes whose digest
  the pair names.  (The test on the magic prints the same message and returns \<^verbatim>\<open>-1\<close>.)
\<close>

theorem LoadMTDContents_accepts_even_colons:
  "count_colons ''MTD:boot:3:0102030000000000000000000000000000000000:200'' = 4 \<and>
   fst (LoadMTDContents test_env (test_world [] [(''boot'', [1, 2, 3, 4, 5, 6])])
          ''MTD:boot:3:0102030000000000000000000000000000000000:200'')
     = Loaded \<lparr>sha1 = [1, 2, 3, 0, 0, 0, 0, 0, 0, 0, 0, 0, 0, 0, 0, 0, 0, 0, 0, 0],
               data = [1, 2, 3], size' = 3,
               st = \<lparr>st_mode = 420, st_uid = 0, st_gid = 0, st_size = 0\<rparr>\<rparr>"
  by code_simp

section \<open>The choice of the source\<close>

lemma FindMatchingPatch_from_none:
  "(\<forall>s\<in>set strs. \<not> entry_matches sha s) \<Longrightarrow> FindMatchingPatch_from k sha strs = - 1"
  by (induction strs arbitrary: k) (auto simp: entry_matches_def split: option.splits)

lemma FindMatchingPatch_from_first:
  "i < length strs \<Longrightarrow> entry_matches sha (strs ! i) \<Longrightarrow>
   (\<forall>j<i. \<not> entry_matches sha (strs ! j)) \<Longrightarrow>
   FindMatchingPatch_from k sha strs = int (k + i)"
proof (induction strs arbitrary: k i)
  case Nil
  then show ?case by simp
next
  case (Cons s strs)
  show ?case
  proof (cases i)
    case 0
    then show ?thesis using Cons.prems by (auto simp: entry_matches_def split: option.splits)
  next
    case (Suc i')
    then have a: "\<not> entry_matches sha s" using Cons.prems(3) by auto
    have b: "\<forall>j<i'. \<not> entry_matches sha (strs ! j)"
    proof (intro allI impI)
      fix j assume "j < i'"
      then have "Suc j < i" using Suc by simp
      then show "\<not> entry_matches sha (strs ! j)" using Cons.prems(3) by fastforce
    qed
    have "FindMatchingPatch_from (k + 1) sha strs = int (k + 1 + i')"
      using Cons.IH[of i' "k + 1"] Cons.prems(1,2) Suc b by simp
    then show ?thesis using a Suc by (auto simp: entry_matches_def split: option.splits)
  qed
qed

text \<open>
  C3 (amended).  In the branch that falls back to the cache copy, once the copy is loaded:
  if the first entry of \<^verbatim>\<open>patch_sha1_str\<close> that matches the copy's digest has a strictly
  positive index \<open>i\<close>, the patch \<open>patch_data[i]\<close> is selected and \<^verbatim>\<open>applypatch\<close> goes on to
  the retry loop; if the first matching entry has index 0 (whether or not a later entry
  matches too), or no entry matches, \<^verbatim>\<open>applypatch\<close> returns 1.
\<close>

theorem cache_copy_needs_positive_first_match:
  "LoadFileContents e w CACHE_TEMP_SOURCE = (Loaded cf, w1) \<Longrightarrow>
   length patch_data = length patch_sha1_str \<Longrightarrow>
   (\<forall>i. i < length patch_sha1_str \<and> entry_matches (sha1 cf) (patch_sha1_str ! i) \<and>
        (\<forall>j<i. \<not> entry_matches (sha1 cf) (patch_sha1_str ! j)) \<longrightarrow>
        try_copy e w patch_sha1_str patch_data =
          (if 0 < i then
             Selected w1 \<lparr>source_file = None, copy_file = Some cf, source_patch_value = None,
                          copy_patch_value = Some (patch_data ! i)\<rparr>
           else Finished (Return 1 w1))) \<and>
   ((\<forall>s\<in>set patch_sha1_str. \<not> entry_matches (sha1 cf) s) \<longrightarrow>
      try_copy e w patch_sha1_str patch_data = Finished (Return 1 w1))"
proof -
  assume ld: "LoadFileContents e w CACHE_TEMP_SOURCE = (Loaded cf, w1)"
    and len: "length patch_data = length patch_sha1_str"
  have tc: "try_copy e w patch_sha1_str patch_data =
      (let to_use = FindMatchingPatch (sha1 cf) patch_sha1_str
       in if 0 < to_use then
            (if nat to_use < length patch_data then
               Selected w1 \<lparr>source_file = None, copy_file = Some cf, source_patch_value = None,
                            copy_patch_value = Some (patch_data ! nat to_use)\<rparr>
             else Finished Undefined)
          else Finished (Return 1 w1))"
    using ld by (simp add: try_copy_def)
  have first: "try_copy e w patch_sha1_str patch_data =
          (if 0 < i then
             Selected w1 \<lparr>source_file = None, copy_file = Some cf, source_patch_value = None,
                          copy_patch_value = Some (patch_data ! i)\<rparr>
           else Finished (Return 1 w1))"
    if "i < length patch_sha1_str" "entry_matches (sha1 cf) (patch_sha1_str ! i)"
      "\<forall>j<i. \<not> entry_matches (sha1 cf) (patch_sha1_str ! j)" for i
  proof -
    have "FindMatchingPatch (sha1 cf) patch_sha1_str = int i"
      using FindMatchingPatch_from_first[OF that, of 0] by (simp add: FindMatchingPatch_def)
    then show ?thesis using tc that(1) len by (simp add: Let_def)
  qed
  have none: "try_copy e w patch_sha1_str patch_data = Finished (Return 1 w1)"
    if "\<forall>s\<in>set patch_sha1_str. \<not> entry_matches (sha1 cf) s"
  proof -
    have "FindMatchingPatch (sha1 cf) patch_sha1_str = - 1"
      using FindMatchingPatch_from_none[OF that, of 0] by (simp add: FindMatchingPatch_def)
    then show ?thesis using tc by (simp add: Let_def)
  qed
  show ?thesis using first none by blast
qed


theorem cache_copy_needs_positive_first_match_witness:
  "LoadFileContents test_env (test_world [(''/cache/saved.file'', [1, 2, 3])] []) CACHE_TEMP_SOURCE
     = (Loaded \<lparr>sha1 = test_SHA [1, 2, 3], data = [1, 2, 3], size' = 3,
                 st = \<lparr>st_mode = 420, st_uid = 0, st_gid = 0, st_size = 3\<rparr>\<rparr>,
        test_world [(''/cache/saved.file'', [1, 2, 3])] []) \<and>
   \<not> entry_matches (test_SHA [1, 2, 3]) ''0102030900000000000000000000000000000000'' \<and>
   entry_matches (test_SHA [1, 2, 3]) ''0102030000000000000000000000000000000000'' \<and>
   try_copy test_env (test_world [(''/cache/saved.file'', [1, 2, 3])] [])
     [''0102030900000000000000000000000000000000'', ''0102030000000000000000000000000000000000'']
     [\<lparr>vtype = 2, vdata = [1]\<rparr>, \<lparr>vtype = 2, vdata = [2]\<rparr>]
   = Selected (test_world [(''/cache/saved.file'', [1, 2, 3])] [])
       \<lparr>source_file = None,
        copy_file = Some \<lparr>sha1 = test_SHA [1, 2, 3], data = [1, 2, 3], size' = 3,
                 st = \<lparr>st_mode = 420, st_uid = 0, st_gid = 0, st_size = 3\<rparr>\<rparr>,
        source_patch_value = None, copy_patch_value = Some \<lparr>vtype = 2, vdata = [2]\<rparr>\<rparr>"
proof -
  have ld: "LoadFileContents test_env (test_world [(''/cache/saved.file'', [1, 2, 3])] []) CACHE_TEMP_SOURCE
     = (Loaded \<lparr>sha1 = test_SHA [1, 2, 3], data = [1, 2, 3], size' = 3,
                 st = \<lparr>st_mode = 420, st_uid = 0, st_gid = 0, st_size = 3\<rparr>\<rparr>,
        test_world [(''/cache/saved.file'', [1, 2, 3])] [])"
    by (simp add: LoadFileContents_def CACHE_TEMP_SOURCE_def test_world_def test_env_def)
  have n0: "\<not> entry_matches (test_SHA [1, 2, 3]) ''0102030900000000000000000000000000000000''"
    by code_simp
  have m1: "entry_matches (test_SHA [1, 2, 3]) ''0102030000000000000000000000000000000000''"
    by code_simp
  show ?thesis
    using cache_copy_needs_positive_first_match[OF ld,
        of "[\<lparr>vtype = 2, vdata = [1]\<rparr>, \<lparr>vtype = 2, vdata = [2]\<rparr>]"
           "[''0102030900000000000000000000000000000000'', ''0102030000000000000000000000000000000000'']",
        THEN conjunct1, rule_format, of 1]
      ld n0 m1
    by (simp add: less_Suc_eq)
qed

text \<open>
  The claim C3 as stated fails: the digest of the cache copy matches the entry at index 1,
  a strictly positive index, but also the entry at index 0, where \<^verbatim>\<open>FindMatchingPatch\<close>
  stops; \<^verbatim>\<open>applypatch\<close> returns 1 and writes no target.
\<close>

theorem cache_copy_rejected_despite_later_match:
  "entry_matches (test_SHA [1, 2, 3])
     ([''0102030000000000000000000000000000000000'', ''0102030000000000000000000000000000000000''] ! 1) \<and>
   (case applypatch test_env (test_world [(''/cache/saved.file'', [1, 2, 3])] [])
           ''/system/a'' ''/system/b'' ''0102030900000000000000000000000000000000'' 4
           [''0102030000000000000000000000000000000000'', ''0102030000000000000000000000000000000000'']
           [\<lparr>vtype = 2, vdata = patch_magic ''BSDIFF40'' @ [9]\<rparr>,
            \<lparr>vtype = 2, vdata = patch_magic ''BSDIFF40'' @ [9]\<rparr>] of
      Return r w \<Rightarrow> Some (r, map_option bytes (files w ''/system/b''))
    | Undefined \<Rightarrow> None) = Some (1, None)"
  by code_simp

section \<open>What each step leaves unchanged\<close>

declare FileSink.simps [simp del] patch_loop.simps [simp del]



lemma LoadFileContents_file:
  "take 4 f \<noteq> ''MTD:'' \<Longrightarrow> LoadFileContents e w f = (r, w1) \<Longrightarrow> w1 = w"
  by (auto simp: LoadFileContents_def split: option.splits if_splits)

lemma sys_open_other:
  "sys_open e w path = Some w1 \<Longrightarrow> p \<noteq> path \<Longrightarrow> files w1 p = files w p"
  by (auto simp: sys_open_def split: if_splits)

lemma sys_open_self:
  "sys_open e w path = Some w1 \<Longrightarrow> \<exists>f. files w1 path = Some f \<and> bytes f = []"
  by (auto simp: sys_open_def split: if_splits option.splits)

lemma append_file_other: "p \<noteq> path \<Longrightarrow> files (append_file w path d) p = files w p"
  by (simp add: append_file_def split: option.splits)

lemma append_file_self:
  "files w path = Some f \<Longrightarrow> files (append_file w path d) path = Some (f\<lparr>bytes := bytes f @ d\<rparr>)"
  by (simp add: append_file_def)

lemma FileSink_other:
  "p \<noteq> fd \<Longrightarrow> files (snd (FileSink e fd d len done w)) p = files w p"
proof (induction e fd d len "done" w rule: FileSink.induct)
  case (1 e fd d len don w)
  show ?case
  proof (cases "don < len \<and> 0 < sys_write e w fd (len - don)")
    case True
    then show ?thesis
      using "1.IH"[OF _ refl _ refl] "1.prems"
      by (subst FileSink.simps) (simp add: Let_def append_file_other)
  next
    case False
    then show ?thesis by (subst FileSink.simps) (auto simp: Let_def)
  qed
qed

lemma FileSink_self:
  "files w fd = Some f \<Longrightarrow> done \<le> len \<Longrightarrow> FileSink e fd d len done w = (n, w1) \<Longrightarrow>
   done \<le> n \<and> n \<le> len \<and>
   (\<exists>f1. files w1 fd = Some f1 \<and> bytes f1 = bytes f @ take (n - done) (drop done d) \<and>
         i_mode f1 = i_mode f \<and> i_uid f1 = i_uid f \<and> i_gid f1 = i_gid f)"
proof (induction e fd d len "done" w arbitrary: f rule: FileSink.induct)
  case (1 e fd d len don w)
  show ?case
  proof (cases "don < len \<and> 0 < sys_write e w fd (len - don)")
    case False
    then have "FileSink e fd d len don w = (don, w)"
      by (subst FileSink.simps) (auto simp: Let_def)
    then show ?thesis using "1.prems" by auto
  next
    case True
    define k where "k = min (nat (sys_write e w fd (len - don))) (len - don)"
    have c1: "don < len" and c3: "\<not> sys_write e w fd (len - don) \<le> 0" using True by auto
    have kle: "don + k \<le> len" using c1 by (simp add: k_def)
    let ?w = "append_file w fd (take k (drop don d))"
    let ?f = "f\<lparr>bytes := bytes f @ take k (drop don d)\<rparr>"
    have step: "FileSink e fd d len don w = FileSink e fd d len (don + k) ?w"
      using c1 c3 by (subst FileSink.simps) (simp add: Let_def k_def)
    have fw: "files ?w fd = Some ?f"
      using "1.prems"(1) by (rule append_file_self)
    have eq: "FileSink e fd d len (don + k) ?w = (n, w1)"
      using step "1.prems"(3) by simp
    have ih: "don + k \<le> n \<and> n \<le> len \<and>
      (\<exists>f1. files w1 fd = Some f1 \<and>
         bytes f1 = bytes ?f @ take (n - (don + k)) (drop (don + k) d) \<and>
         i_mode f1 = i_mode ?f \<and> i_uid f1 = i_uid ?f \<and> i_gid f1 = i_gid ?f)"
      by (rule "1.IH"[OF c1 refl c3 refl, folded k_def, OF fw kle eq])
    have tk: "take k (drop don d) @ take (n - (don + k)) (drop (don + k) d) = take (n - don) (drop don d)"
    proof -
      have "n - don = k + (n - (don + k))" using ih by linarith
      moreover have "drop (don + k) d = drop k (drop don d)" by (simp add: add.commute)
      ultimately show ?thesis by (simp only: take_add)
    qed
    from ih obtain f1 where f1: "files w1 fd = Some f1"
        "bytes f1 = bytes ?f @ take (n - (don + k)) (drop (don + k) d)"
        "i_mode f1 = i_mode ?f" "i_uid f1 = i_uid ?f" "i_gid f1 = i_gid ?f"
      by blast
    have "bytes f1 = bytes f @ take (n - don) (drop don d)"
      using f1(2) tk by simp
    moreover have "don \<le> n" "n \<le> len" using ih by auto
    ultimately show ?thesis using f1 by simp
  qed
qed


lemma unlink_self: "files (unlink w path) path = None"
  by (simp add: unlink_def)


lemma chmod_self:
  "chmod e w path m = Some w1 \<Longrightarrow> \<exists>f. files w path = Some f \<and> files w1 path = Some (f\<lparr>i_mode := m\<rparr>)"
  by (auto simp: chmod_def split: option.splits if_splits)


lemma chown_self:
  "chown e w path u g = Some w1 \<Longrightarrow>
   \<exists>f. files w path = Some f \<and> files w1 path = Some (f\<lparr>i_uid := u, i_gid := g\<rparr>)"
  by (auto simp: chown_def split: option.splits if_splits)

lemma rename_other:
  "rename e w old new = Some w1 \<Longrightarrow> p \<noteq> old \<Longrightarrow> p \<noteq> new \<Longrightarrow> files w1 p = files w p"
  by (auto simp: rename_def split: option.splits if_splits)

lemma rename_new:
  "rename e w old new = Some w1 \<Longrightarrow> files w1 new = files w old \<and> files w old \<noteq> None"
  by (auto simp: rename_def split: option.splits if_splits)


lemma push_chunks_file_other:
  "p \<noteq> fd \<Longrightarrow> push_chunks (file_sink e fd) chunks res w c = (r, w1, c1) \<Longrightarrow>
   files w1 p = files w p"
proof (induction chunks arbitrary: w c)
  case Nil
  then show ?case by simp
next
  case (Cons ch chunks)
  obtain n wa where fs: "FileSink e fd ch (length ch) 0 w = (n, wa)"
    by (cases "FileSink e fd ch (length ch) 0 w")
  have fsk: "file_sink e fd ch w = (int n, wa)" using fs by (simp add: file_sink_def)
  have a: "files wa p = files w p"
    using FileSink_other[OF Cons.prems(1), of e ch "length ch" 0 w] fs by simp
  show ?case
  proof (cases "int n < int (length ch)")
    case True
    then show ?thesis using Cons.prems(2) fsk a by simp
  next
    case False
    then have "push_chunks (file_sink e fd) chunks res wa (SHA_update c ch) = (r, w1, c1)"
      using Cons.prems(2) fsk by simp
    then show ?thesis using Cons.IH[OF Cons.prems(1)] a by simp
  qed
qed

lemma push_chunks_file_self:
  "files w fd = Some f \<Longrightarrow> push_chunks (file_sink e fd) chunks res w c = (r, w1, c1) \<Longrightarrow>
   (\<exists>f1. files w1 fd = Some f1) \<and>
   (r = 0 \<longrightarrow> (\<exists>f1. files w1 fd = Some f1 \<and> bytes f1 = bytes f @ concat chunks \<and>
                     i_mode f1 = i_mode f \<and> i_uid f1 = i_uid f \<and> i_gid f1 = i_gid f) \<and>
              c1 = c @ concat chunks)"
proof (induction chunks arbitrary: w c f)
  case Nil
  then show ?case by simp
next
  case (Cons ch chunks)
  obtain n wa where fs: "FileSink e fd ch (length ch) 0 w = (n, wa)"
    by (cases "FileSink e fd ch (length ch) 0 w")
  have fsk: "file_sink e fd ch w = (int n, wa)" using fs by (simp add: file_sink_def)
  from FileSink_self[OF Cons.prems(1) _ fs] obtain fa where
    fa: "n \<le> length ch" "files wa fd = Some fa" "bytes fa = bytes f @ take n ch"
      "i_mode fa = i_mode f" "i_uid fa = i_uid f" "i_gid fa = i_gid f"
    by auto
  show ?case
  proof (cases "int n < int (length ch)")
    case True
    then have "r = 1" "w1 = wa" using Cons.prems(2) fsk by simp_all
    then show ?thesis using fa by simp
  next
    case False
    then have n: "n = length ch" using fa(1) by simp
    have rec: "push_chunks (file_sink e fd) chunks res wa (SHA_update c ch) = (r, w1, c1)"
      using Cons.prems(2) fsk False by simp
    show ?thesis
      using Cons.IH[OF fa(2) rec] fa n by (auto simp: SHA_update_def)
  qed
qed

lemma decode_file_cases:
  assumes "take 4 tgt \<noteq> ''MTD:''"
  shows "decode e tgt tsz sel w = Inl Undefined \<or>
         decode e tgt tsz sel w = Inl (Return 1 w) \<or>
         (\<exists>w1. sys_open e w (tgt @ ''.patch'') = Some w1 \<and>
            (decode e tgt tsz sel w = Inl (Return 1 w1) \<or>
             (\<exists>chunks res r w2 c src.
                push_chunks (file_sink e (tgt @ ''.patch'')) chunks res w1 SHA_init = (r, w2, c) \<and>
                decode e tgt tsz sel w =
                  Inr \<lparr>result = r, dw = w2, ctx = c, sink = StagingFile (tgt @ ''.patch''),
                       source_to_use = src\<rparr>)))"
  using assms
  by (auto simp: decode_def Let_def split: prod.splits option.splits if_splits)

lemma decode_file_Inr:
  assumes "take 4 tgt \<noteq> ''MTD:''" "decode e tgt tsz sel w = Inr d"
  shows "sink d = StagingFile (tgt @ ''.patch'') \<and>
         (\<forall>p. p \<noteq> tgt @ ''.patch'' \<longrightarrow> files (dw d) p = files w p) \<and>
         (\<exists>f. files (dw d) (tgt @ ''.patch'') = Some f \<and> (result d = 0 \<longrightarrow> bytes f = ctx d))"
proof -
  from decode_file_cases[OF assms(1), of e tsz sel w] assms(2)
  obtain w1 chunks res r w2 c src where
    op: "sys_open e w (tgt @ ''.patch'') = Some w1"
    and pc: "push_chunks (file_sink e (tgt @ ''.patch'')) chunks res w1 SHA_init = (r, w2, c)"
    and d: "d = \<lparr>result = r, dw = w2, ctx = c, sink = StagingFile (tgt @ ''.patch''),
                 source_to_use = src\<rparr>"
    by auto
  from sys_open_self[OF op] obtain f0 where f0: "files w1 (tgt @ ''.patch'') = Some f0" "bytes f0 = []"
    by blast
  have other: "files w2 p = files w p" if "p \<noteq> tgt @ ''.patch''" for p
    using push_chunks_file_other[OF that pc] sys_open_other[OF op that] by simp
  from push_chunks_file_self[OF f0(1) pc] f0(2)
  have "\<exists>f. files w2 (tgt @ ''.patch'') = Some f \<and> (r = 0 \<longrightarrow> bytes f = c)"
    by (auto simp: SHA_init_def)
  then show ?thesis using d other by simp
qed






lemma FileSink_all:
  assumes "sys_write e w fd (length d) = int (length d)"
  shows "FileSink e fd d (length d) 0 w = (length d, if d = [] then w else append_file w fd d)"
proof (cases "d = []")
  case True
  then show ?thesis by (subst FileSink.simps) simp
next
  case False
  have "FileSink e fd d (length d) 0 w = FileSink e fd d (length d) (length d) (append_file w fd d)"
    using False assms by (subst FileSink.simps) (simp add: Let_def)
  also have "\<dots> = (length d, append_file w fd d)"
    by (subst FileSink.simps) simp
  finally show ?thesis using False by simp
qed

lemma file_sink_all:
  assumes "sys_write e w fd (length d) = int (length d)"
  shows "file_sink e fd d w = (int (length d), if d = [] then w else append_file w fd d)"
  using FileSink_all[OF assms] by (simp add: file_sink_def)

section \<open>Runs of the loop\<close>

lemma test_env_fields:
  "SHA test_env = test_SHA"
  "fopen_fails test_env p = False" "fread_short test_env p = False"
  "statfs test_env w p = Some (4096, 1000)"
  "open_fails test_env w p = False" "creat_mode test_env = 384"
  "sys_write test_env w p n = int n"
  "chmod_fails test_env w p = False" "chown_fails test_env w p = False"
  "rename_fails test_env w p = False"
  "MakeFreeSpaceOnCache test_env w n = 0" "malloc_fails test_env n = False"
  "ApplyBSDiffPatch test_env = test_decoder" "ApplyImagePatch test_env = test_decoder"
  by (simp_all add: test_env_def)

lemma test_world_files:
  "files (test_world fs parts) p =
     map_option (\<lambda>b. \<lparr>bytes = b, i_mode = 420, i_uid = 0, i_gid = 0\<rparr>) (map_of fs p)"
  by (induction fs) (auto simp: test_world_def)

lemma LoadFileContents_missing:
  "take 4 p \<noteq> ''MTD:'' \<Longrightarrow> files w p = None \<Longrightarrow> LoadFileContents e w p = (LoadFailed, w)"
  by (simp add: LoadFileContents_def)

lemma LoadFileContents_present:
  "take 4 p \<noteq> ''MTD:'' \<Longrightarrow> files w p = Some f \<Longrightarrow> \<not> fopen_fails e p \<Longrightarrow> \<not> fread_short e p \<Longrightarrow>
   LoadFileContents e w p =
     (Loaded \<lparr>sha1 = SHA e (bytes f), data = bytes f, size' = length (bytes f),
              st = \<lparr>st_mode = i_mode f, st_uid = i_uid f, st_gid = i_gid f,
                     st_size = length (bytes f)\<rparr>\<rparr>, w)"
  by (simp add: LoadFileContents_def)

lemma choose_source_fresh:
  assumes "LoadFileContents e w tgt = (LoadFailed, w)"
    "LoadFileContents e w src = (Loaded sf, w)"
    "FindMatchingPatch (sha1 sf) strs = int i" "i < length pd"
  shows "choose_source e w src tgt tsha strs pd =
     Selected w \<lparr>source_file = Some sf, copy_file = None,
                 source_patch_value = Some (pd ! i), copy_patch_value = None\<rparr>"
  unfolding choose_source_def assms(1) using assms(2,3,4) by simp

lemma applypatch_loop:
  "ParseSha1 tstr = Some tsha \<Longrightarrow> choose_source e w src tgt tsha strs pd = Selected w1 sel \<Longrightarrow>
   tgt \<noteq> [] \<Longrightarrow> tgt \<noteq> ''-'' \<Longrightarrow>
   applypatch e w src tgt tstr tsz strs pd =
     patch_loop e src tgt tsha tsz sel \<lparr>pw = w1, retry = 1, made_copy = False\<rparr>"
  by (simp add: applypatch_def)

lemma pass_mismatch:
  "make_space e src tgt tsz sel s = Inr s1 \<Longrightarrow> decode e tgt tsz sel (pw s1) = Inr d \<Longrightarrow>
   result d = 0 \<Longrightarrow> \<not> memcmp_eq (SHA_final e (ctx d)) tsha SHA_DIGEST_SIZE \<Longrightarrow>
   patch_loop e src tgt tsha tsz sel s = Return 1 (dw d)"
  by (subst patch_loop.simps) (simp add: commit_def)

lemma pass_failed_last:
  "make_space e src tgt tsz sel s = Inr s1 \<Longrightarrow> decode e tgt tsz sel (pw s1) = Inr d \<Longrightarrow>
   result d \<noteq> 0 \<Longrightarrow> retry s1 = 0 \<Longrightarrow>
   patch_loop e src tgt tsha tsz sel s = Return 1 (dw d)"
  by (subst patch_loop.simps) simp

lemma pass_failed_retry:
  "make_space e src tgt tsz sel s = Inr s1 \<Longrightarrow> decode e tgt tsz sel (pw s1) = Inr d \<Longrightarrow>
   result d \<noteq> 0 \<Longrightarrow> 0 < retry s1 \<Longrightarrow>
   patch_loop e src tgt tsha tsz sel s =
     patch_loop e src tgt tsha tsz sel
       \<lparr>pw = unlink_outname d, retry = retry s1 - 1, made_copy = made_copy s1\<rparr>"
  by (subst patch_loop.simps) simp

lemma make_space_file_retry:
  "take 4 tgt \<noteq> ''MTD:'' \<Longrightarrow> make_space e src tgt tsz sel s = Inr s1 \<Longrightarrow>
   retry s1 = 0 \<or> (retry s1 = retry s \<and> 0 < retry s)"
  by (auto simp: make_space_def Let_def split: if_splits sum.splits)

lemma decode_one_chunk:
  assumes "take 4 tgt \<noteq> ''MTD:''" "source_patch_value sel = Some patch" "source_file sel = Some sf"
    "vtype patch = VAL_BLOB" "sys_open e w (tgt @ ''.patch'') = Some w1"
    "decoder_for e patch = Some dec" "dec w1 (data sf) patch = ([c], r)"
    "sys_write e w1 (tgt @ ''.patch'') (length c) = int (length c)" "c \<noteq> []"
  shows "decode e tgt tsz sel w =
     Inr \<lparr>result = r, dw = append_file w1 (tgt @ ''.patch'') c, ctx = c,
          sink = StagingFile (tgt @ ''.patch''), source_to_use = sf\<rparr>"
proof -
  have fs: "file_sink e (tgt @ ''.patch'') c w1 = (int (length c), append_file w1 (tgt @ ''.patch'') c)"
    using file_sink_all[OF assms(8)] assms(9) by simp
  have pc: "push_chunks (file_sink e (tgt @ ''.patch'')) [c] r w1 SHA_init
            = (r, append_file w1 (tgt @ ''.patch'') c, c)"
    by (simp add: fs SHA_update_def SHA_init_def)
  show ?thesis
    using assms(1-7) pc by (simp add: decode_def Let_def)
qed

lemma SaveFileContents_ok:
  assumes "\<not> open_fails e w p" "\<forall>w' n. sys_write e w' p n = int n"
    "size' file = length (data file)" "\<forall>w'. \<not> chmod_fails e w' p" "\<forall>w'. \<not> chown_fails e w' p"
  shows "\<exists>w1. SaveFileContents e w p file = (0, w1) \<and>
           (\<exists>f. files w1 p = Some f \<and> bytes f = data file)"
proof -
  obtain wa where op: "sys_open e w p = Some wa"
    using assms(1) by (simp add: sys_open_def)
  from sys_open_self[OF op] obtain f0 where f0: "files wa p = Some f0" "bytes f0 = []" by blast
  let ?wb = "if data file = [] then wa else append_file wa p (data file)"
  have fs: "FileSink e p (data file) (length (data file)) 0 wa = (length (data file), ?wb)"
    using assms(2) by (intro FileSink_all) simp
  obtain fb where fb: "files ?wb p = Some fb" "bytes fb = data file"
    using f0 by (cases "data file = []") (auto simp: append_file_self)
  obtain wc where cm: "chmod e ?wb p (st_mode (st file)) = Some wc"
    using fb(1) assms(4) by (simp add: chmod_def)
  from chmod_self[OF cm] fb have fc: "files wc p = Some (fb\<lparr>i_mode := st_mode (st file)\<rparr>)" by auto
  obtain wd where co: "chown e wc p (st_uid (st file)) (st_gid (st file)) = Some wd"
    using fc assms(5) by (simp add: chown_def)
  from chown_self[OF co] fc fb have fd: "\<exists>f. files wd p = Some f \<and> bytes f = data file" by auto
  have "SaveFileContents e w p file = (0, wd)"
    using cm co by (simp add: SaveFileContents_def op assms(3) fs)
  then show ?thesis using fd by blast
qed

lemma failing_env_fields:
  "SHA failing_env = test_SHA"
  "fopen_fails failing_env p = False" "fread_short failing_env p = False"
  "statfs failing_env w p = Some (4096, 1000)"
  "open_fails failing_env w p = False" "creat_mode failing_env = 384"
  "sys_write failing_env w p n = int n"
  "chmod_fails failing_env w p = False" "chown_fails failing_env w p = False"
  "rename_fails failing_env w p = False"
  "MakeFreeSpaceOnCache failing_env w n = 0" "malloc_fails failing_env n = False"
  "ApplyBSDiffPatch failing_env = failing_decoder" "ApplyImagePatch failing_env = failing_decoder"
  by (simp_all add: failing_env_def test_env_def)

lemma choose_source_plain:
  assumes "take 4 src \<noteq> ''MTD:''" "take 4 tgt \<noteq> ''MTD:''" "files w tgt = None"
    "files w src = Some f" "\<not> fopen_fails e src" "\<not> fread_short e src"
    "FindMatchingPatch (SHA e (bytes f)) strs = int i" "i < length pd"
  shows "choose_source e w src tgt tsha strs pd =
     Selected w \<lparr>source_file = Some \<lparr>sha1 = SHA e (bytes f), data = bytes f, size' = length (bytes f),
              st = \<lparr>st_mode = i_mode f, st_uid = i_uid f, st_gid = i_gid f,
                     st_size = length (bytes f)\<rparr>\<rparr>, copy_file = None,
                 source_patch_value = Some (pd ! i), copy_patch_value = None\<rparr>"
  by (rule choose_source_fresh[OF LoadFileContents_missing[OF assms(2,3)]
        LoadFileContents_present[OF assms(1,4,5,6)]]) (use assms(7,8) in simp_all)

lemma bsd_decoder:
  "decoder_for e \<lparr>vtype = 2, vdata = patch_magic ''BSDIFF40'' @ body\<rparr> = Some (ApplyBSDiffPatch e)"
  by (simp add: decoder_for_def patch_magic_def)

lemma drop_magic: "drop 8 (patch_magic ''BSDIFF40'' @ body) = body"
  by (simp add: patch_magic_def)

lemma magic_length: "length (patch_magic s) = length s"
  by (simp add: patch_magic_def)

lemma enough_space_test: "enough_space_check (FreeSpaceForFile (Some (4096, 1000))) 4"
  by (simp add: enough_space_check_def FreeSpaceForFile_def)

lemma test_SHA_123: "test_SHA [1, 2, 3] = [1, 2, 3, 0, 0, 0, 0, 0, 0, 0, 0, 0, 0, 0, 0, 0, 0, 0, 0, 0]"
  by code_simp

lemma test_SHA_1239: "test_SHA [1, 2, 3, 9] = [1, 2, 3, 9, 0, 0, 0, 0, 0, 0, 0, 0, 0, 0, 0, 0, 0, 0, 0, 0]"
  by code_simp

lemma fm_test: "FindMatchingPatch (test_SHA [1, 2, 3]) [''0102030000000000000000000000000000000000''] = int 0"
  by code_simp

lemma digest_differs:
  "\<not> memcmp_eq (SHA_final test_env [1, 2, 3, 9]) (test_SHA [1, 2, 3]) SHA_DIGEST_SIZE"
  by (simp add: memcmp_eq_def SHA_final_def test_env_fields test_SHA_123 test_SHA_1239
        SHA_DIGEST_SIZE_def)

lemma mismatch_run:
  "\<exists>w'. applypatch test_env (test_world [(''/system/a'', [1, 2, 3])] []) ''/system/a'' ''/system/b''
          ''0102030000000000000000000000000000000000'' 4 [''0102030000000000000000000000000000000000'']
          [\<lparr>vtype = 2, vdata = patch_magic ''BSDIFF40'' @ [9]\<rparr>] = Return 1 w' \<and>
        (\<exists>f. files w' ''/system/b.patch'' = Some f \<and> bytes f = [1, 2, 3, 9])"
proof -
  let ?W = "test_world [(''/system/a'', [1, 2, 3])] []"
  let ?P = "\<lparr>vtype = 2, vdata = patch_magic ''BSDIFF40'' @ [9]\<rparr>"
  let ?SF = "\<lparr>sha1 = test_SHA [1, 2, 3], data = [1, 2, 3], size' = 3,
              st = \<lparr>st_mode = 420, st_uid = 0, st_gid = 0, st_size = 3\<rparr>\<rparr>"
  let ?SEL = "\<lparr>source_file = Some ?SF, copy_file = None,
                 source_patch_value = Some ?P, copy_patch_value = None\<rparr>"
  let ?S = "\<lparr>pw = ?W, retry = 1, made_copy = False\<rparr>"
  have ps: "ParseSha1 ''0102030000000000000000000000000000000000'' = Some (test_SHA [1, 2, 3])"
    by code_simp
  have cs: "choose_source test_env ?W ''/system/a'' ''/system/b'' (test_SHA [1, 2, 3]) [''0102030000000000000000000000000000000000''] [?P]
            = Selected ?W ?SEL"
    using choose_source_plain[of "''/system/a''" "''/system/b''" ?W
        "\<lparr>bytes = [1, 2, 3], i_mode = 420, i_uid = 0, i_gid = 0\<rparr>" test_env "[''0102030000000000000000000000000000000000'']" 0 "[?P]"
        "test_SHA [1, 2, 3]"] fm_test
    by (simp add: test_world_files test_env_fields)
  have ms: "make_space test_env ''/system/a'' ''/system/b'' 4 ?SEL ?S = Inr ?S"
    by (rule make_space_file_enough) (simp_all add: test_env_fields enough_space_test)
  obtain W1 where op: "sys_open test_env ?W ''/system/b.patch'' = Some W1"
    by (simp add: sys_open_def test_env_fields)
  have dc: "decode test_env ''/system/b'' 4 ?SEL ?W =
     Inr \<lparr>result = 0, dw = append_file W1 (''/system/b'' @ ''.patch'') [1, 2, 3, 9], ctx = [1, 2, 3, 9],
          sink = StagingFile (''/system/b'' @ ''.patch''), source_to_use = ?SF\<rparr>"
    by (rule decode_one_chunk[where patch = ?P and ?w1.0 = W1 and dec = test_decoder])
       (use op in \<open>simp_all add: VAL_BLOB_def bsd_decoder test_env_fields test_decoder_def magic_length\<close>)
  from sys_open_self[OF op] obtain f0 where f0: "files W1 ''/system/b.patch'' = Some f0" "bytes f0 = []"
    by blast
  let ?D = "\<lparr>result = 0, dw = append_file W1 (''/system/b'' @ ''.patch'') [1, 2, 3, 9], ctx = [1, 2, 3, 9],
          sink = StagingFile (''/system/b'' @ ''.patch''), source_to_use = ?SF\<rparr>"
  have "patch_loop test_env ''/system/a'' ''/system/b'' (test_SHA [1, 2, 3]) 4 ?SEL ?S
      = Return 1 (dw ?D)"
    by (rule pass_mismatch[OF ms]) (simp_all add: dc digest_differs)
  then have lp: "patch_loop test_env ''/system/a'' ''/system/b'' (test_SHA [1, 2, 3]) 4 ?SEL ?S
      = Return 1 (append_file W1 (''/system/b'' @ ''.patch'') [1, 2, 3, 9])"
    by simp
  have ap: "applypatch test_env ?W ''/system/a'' ''/system/b'' ''0102030000000000000000000000000000000000'' 4 [''0102030000000000000000000000000000000000''] [?P]
      = Return 1 (append_file W1 (''/system/b'' @ ''.patch'') [1, 2, 3, 9])"
    unfolding lp[symmetric] by (rule applypatch_loop[OF ps cs]) simp_all
  show ?thesis
    using ap append_file_self[OF f0(1), of "[1, 2, 3, 9]"] f0(2) by simp
qed

lemma make_space_backup:
  assumes "take 4 tgt \<noteq> ''MTD:''" "\<not> (0 < retry s \<and>
      enough_space_check (FreeSpaceForFile (statfs e (pw s) (target_fs_of tgt))) tsz)"
    "source_patch_value sel \<noteq> None" "take 4 src \<noteq> ''MTD:''" "source_file sel = Some sf"
    "\<not> MakeFreeSpaceOnCache e (pw s) (size' sf) < 0"
    "SaveFileContents e (pw s) CACHE_TEMP_SOURCE sf = (0, wb)"
  shows "make_space e src tgt tsz sel s = Inr \<lparr>pw = unlink wb src, retry = 0, made_copy = True\<rparr>"
  using assms by (simp add: make_space_def backup_source_def)

lemma failing_run:
  "\<exists>sel d s2 d2.
     choose_source failing_env (test_world [(''/system/a'', [1, 2, 3])] []) ''/system/a'' ''/system/b''
       tsha [''0102030000000000000000000000000000000000''] [\<lparr>vtype = 2, vdata = patch_magic ''BSDIFF40'' @ [9]\<rparr>]
       = Selected (test_world [(''/system/a'', [1, 2, 3])] []) sel \<and>
     make_space failing_env ''/system/a'' ''/system/b'' 4 sel
       \<lparr>pw = test_world [(''/system/a'', [1, 2, 3])] [], retry = 1, made_copy = False\<rparr>
       = Inr \<lparr>pw = test_world [(''/system/a'', [1, 2, 3])] [], retry = 1, made_copy = False\<rparr> \<and>
     decode failing_env ''/system/b'' 4 sel (test_world [(''/system/a'', [1, 2, 3])] []) = Inr d \<and>
     result d \<noteq> 0 \<and>
     make_space failing_env ''/system/a'' ''/system/b'' 4 sel
       \<lparr>pw = unlink (dw d) ''/system/b.patch'', retry = 0, made_copy = False\<rparr> = Inr s2 \<and>
     decode failing_env ''/system/b'' 4 sel (pw s2) = Inr d2 \<and> result d2 \<noteq> 0"
proof -
  let ?W = "test_world [(''/system/a'', [1, 2, 3])] []"
  let ?P = "\<lparr>vtype = 2, vdata = patch_magic ''BSDIFF40'' @ [9]\<rparr>"
  let ?SF = "\<lparr>sha1 = test_SHA [1, 2, 3], data = [1, 2, 3], size' = 3,
              st = \<lparr>st_mode = 420, st_uid = 0, st_gid = 0, st_size = 3\<rparr>\<rparr>"
  let ?SEL = "\<lparr>source_file = Some ?SF, copy_file = None,
                 source_patch_value = Some ?P, copy_patch_value = None\<rparr>"
  let ?S = "\<lparr>pw = ?W, retry = 1, made_copy = False\<rparr>"
  have cs: "choose_source failing_env ?W ''/system/a'' ''/system/b'' tsha [''0102030000000000000000000000000000000000''] [?P]
            = Selected ?W ?SEL"
    using choose_source_plain[of "''/system/a''" "''/system/b''" ?W
        "\<lparr>bytes = [1, 2, 3], i_mode = 420, i_uid = 0, i_gid = 0\<rparr>" failing_env "[''0102030000000000000000000000000000000000'']" 0 "[?P]"
        tsha] fm_test
    by (simp add: test_world_files failing_env_fields)
  have ms: "make_space failing_env ''/system/a'' ''/system/b'' 4 ?SEL ?S = Inr ?S"
    by (rule make_space_file_enough) (simp_all add: failing_env_fields enough_space_test)
  obtain W1 where op: "sys_open failing_env ?W ''/system/b.patch'' = Some W1"
    by (simp add: sys_open_def failing_env_fields)
  let ?D = "\<lparr>result = 1, dw = append_file W1 (''/system/b'' @ ''.patch'') [1, 2, 3], ctx = [1, 2, 3],
          sink = StagingFile (''/system/b'' @ ''.patch''), source_to_use = ?SF\<rparr>"
  have dc: "decode failing_env ''/system/b'' 4 ?SEL ?W = Inr ?D"
    by (rule decode_one_chunk[where patch = ?P and ?w1.0 = W1 and dec = failing_decoder])
       (use op in \<open>simp_all add: VAL_BLOB_def bsd_decoder failing_env_fields failing_decoder_def\<close>)
  let ?S1 = "\<lparr>pw = unlink (dw ?D) ''/system/b.patch'', retry = 0, made_copy = False\<rparr>"
  obtain wb where sv: "SaveFileContents failing_env (pw ?S1) CACHE_TEMP_SOURCE ?SF = (0, wb)"
    using SaveFileContents_ok[of failing_env "pw ?S1" CACHE_TEMP_SOURCE ?SF]
    by (auto simp: failing_env_fields)
  let ?S2 = "\<lparr>pw = unlink wb ''/system/a'', retry = 0, made_copy = True\<rparr>"
  have ms2: "make_space failing_env ''/system/a'' ''/system/b'' 4 ?SEL ?S1 = Inr ?S2"
    by (rule make_space_backup[OF _ _ _ _ _ _ sv]) (simp_all add: failing_env_fields)
  obtain W3 where op3: "sys_open failing_env (pw ?S2) ''/system/b.patch'' = Some W3"
    by (simp add: sys_open_def failing_env_fields)
  let ?D2 = "\<lparr>result = 1, dw = append_file W3 (''/system/b'' @ ''.patch'') [1, 2, 3], ctx = [1, 2, 3],
          sink = StagingFile (''/system/b'' @ ''.patch''), source_to_use = ?SF\<rparr>"
  have dc2: "decode failing_env ''/system/b'' 4 ?SEL (pw ?S2) = Inr ?D2"
    by (rule decode_one_chunk[where patch = ?P and ?w1.0 = W3 and dec = failing_decoder])
       (use op3 in \<open>simp_all add: VAL_BLOB_def bsd_decoder failing_env_fields failing_decoder_def\<close>)
  have r: "result ?D \<noteq> 0" "result ?D2 \<noteq> 0" by simp_all
  show ?thesis
    by (intro exI[of _ ?SEL] exI[of _ ?D] exI[of _ ?S2] exI[of _ ?D2] conjI cs ms dc r dc2)
       (use ms2 in simp)
qed

section \<open>The staging file of a pass that does not commit\<close>

text \<open>
  C1 (amended).  Take a run of \<^verbatim>\<open>applypatch\<close> on a file target that reaches the decoder
  in its first pass, so that the staging file \<^verbatim>\<open>outname\<close> (the target name followed by
  \<^verbatim>\<open>.patch\<close>) has been created.
  \<^item> When the decoder succeeds and the digest of its output differs from the expected one,
    \<^verbatim>\<open>applypatch\<close> returns 1 in the world the decoder left: the staging file is still
    there and holds the output.
  \<^item> When the decoder fails and no retry is left, \<^verbatim>\<open>applypatch\<close> returns 1 in the world
    the decoder left: the staging file is still there.
  \<^item> When the decoder fails and a retry is left, the staging file is unlinked and the second
    pass starts without it; a second pass that reaches the decoder and fails there, or
    produces the wrong digest, returns 1 with the staging file of that pass still there.
\<close>

theorem staging_file_after_failed_pass:
  assumes "ParseSha1 tstr = Some tsha"
    and "choose_source e w src tgt tsha strs pd = Selected w1 sel"
    and "tgt \<noteq> []" and "tgt \<noteq> ''-''" and "take 4 tgt \<noteq> ''MTD:''"
    and "make_space e src tgt tsz sel \<lparr>pw = w1, retry = 1, made_copy = False\<rparr> = Inr s1"
    and "decode e tgt tsz sel (pw s1) = Inr d"
  shows "(result d = 0 \<and> \<not> memcmp_eq (SHA_final e (ctx d)) tsha SHA_DIGEST_SIZE \<longrightarrow>
            applypatch e w src tgt tstr tsz strs pd = Return 1 (dw d) \<and>
            (\<exists>f. files (dw d) (tgt @ ''.patch'') = Some f \<and> bytes f = ctx d)) \<and>
         (result d \<noteq> 0 \<and> retry s1 = 0 \<longrightarrow>
            applypatch e w src tgt tstr tsz strs pd = Return 1 (dw d) \<and>
            files (dw d) (tgt @ ''.patch'') \<noteq> None) \<and>
         (result d \<noteq> 0 \<and> retry s1 \<noteq> 0 \<longrightarrow>
            applypatch e w src tgt tstr tsz strs pd =
              patch_loop e src tgt tsha tsz sel
                \<lparr>pw = unlink (dw d) (tgt @ ''.patch''), retry = 0, made_copy = made_copy s1\<rparr> \<and>
            files (unlink (dw d) (tgt @ ''.patch'')) (tgt @ ''.patch'') = None \<and>
            (\<forall>s2 d2.
               make_space e src tgt tsz sel
                 \<lparr>pw = unlink (dw d) (tgt @ ''.patch''), retry = 0, made_copy = made_copy s1\<rparr> = Inr s2 \<and>
               decode e tgt tsz sel (pw s2) = Inr d2 \<longrightarrow>
               (result d2 \<noteq> 0 \<longrightarrow>
                  applypatch e w src tgt tstr tsz strs pd = Return 1 (dw d2) \<and>
                  files (dw d2) (tgt @ ''.patch'') \<noteq> None) \<and>
               (result d2 = 0 \<and> \<not> memcmp_eq (SHA_final e (ctx d2)) tsha SHA_DIGEST_SIZE \<longrightarrow>
                  applypatch e w src tgt tstr tsz strs pd = Return 1 (dw d2) \<and>
                  (\<exists>f. files (dw d2) (tgt @ ''.patch'') = Some f \<and> bytes f = ctx d2))))"
proof -
  let ?s0 = "\<lparr>pw = w1, retry = 1, made_copy = False\<rparr>"
  let ?out = "tgt @ ''.patch''"
  have ap: "applypatch e w src tgt tstr tsz strs pd = patch_loop e src tgt tsha tsz sel ?s0"
    using assms(1,2,3,4) by (rule applypatch_loop)
  from decode_file_Inr[OF assms(5,7)] obtain f where
    sk: "sink d = StagingFile ?out"
    and f: "files (dw d) ?out = Some f" "result d = 0 \<longrightarrow> bytes f = ctx d"
    by blast
  have uo: "unlink_outname d = unlink (dw d) ?out"
    using sk by (simp add: unlink_outname_def)
  have r1: "retry s1 = 0 \<or> retry s1 = 1"
    using make_space_file_retry[OF assms(5,6)] by auto
  have a: "applypatch e w src tgt tstr tsz strs pd = Return 1 (dw d)"
    if "result d = 0" "\<not> memcmp_eq (SHA_final e (ctx d)) tsha SHA_DIGEST_SIZE"
    unfolding ap using assms(6,7) that by (rule pass_mismatch)
  have b: "applypatch e w src tgt tstr tsz strs pd = Return 1 (dw d)"
    if "result d \<noteq> 0" "retry s1 = 0"
    unfolding ap using assms(6,7) that by (rule pass_failed_last)
  let ?s1 = "\<lparr>pw = unlink (dw d) ?out, retry = 0, made_copy = made_copy s1\<rparr>"
  have c: "applypatch e w src tgt tstr tsz strs pd = patch_loop e src tgt tsha tsz sel ?s1"
    if "result d \<noteq> 0" "retry s1 \<noteq> 0"
  proof -
    have "retry s1 = 1" using r1 that(2) by simp
    then show ?thesis
      unfolding ap using pass_failed_retry[OF assms(6,7) that(1), of tsha] uo by simp
  qed
  have snd_pass: "(result d2 \<noteq> 0 \<longrightarrow>
                  patch_loop e src tgt tsha tsz sel ?s1 = Return 1 (dw d2) \<and>
                  files (dw d2) ?out \<noteq> None) \<and>
               (result d2 = 0 \<and> \<not> memcmp_eq (SHA_final e (ctx d2)) tsha SHA_DIGEST_SIZE \<longrightarrow>
                  patch_loop e src tgt tsha tsz sel ?s1 = Return 1 (dw d2) \<and>
                  (\<exists>f. files (dw d2) ?out = Some f \<and> bytes f = ctx d2))"
    if ms: "make_space e src tgt tsz sel ?s1 = Inr s2" and dc: "decode e tgt tsz sel (pw s2) = Inr d2"
    for s2 d2
  proof -
    from decode_file_Inr[OF assms(5) dc] obtain f2 where
      f2: "files (dw d2) ?out = Some f2" "result d2 = 0 \<longrightarrow> bytes f2 = ctx d2"
      by blast
    have r2: "retry s2 = 0" using make_space_file_retry[OF assms(5) ms] by auto
    show ?thesis
      using pass_failed_last[OF ms dc _ r2, of tsha] pass_mismatch[OF ms dc, of tsha] f2
      by auto
  qed
  show ?thesis
    using a b c f snd_pass by (auto simp: unlink_self)
qed

theorem staging_file_after_failed_pass_witness:
  "\<exists>tsha sel d s2 d2.
     ParseSha1 ''0102030900000000000000000000000000000000'' = Some tsha \<and>
     choose_source failing_env (test_world [(''/system/a'', [1, 2, 3])] []) ''/system/a'' ''/system/b''
       tsha [''0102030000000000000000000000000000000000''] [\<lparr>vtype = 2, vdata = patch_magic ''BSDIFF40'' @ [9]\<rparr>]
       = Selected (test_world [(''/system/a'', [1, 2, 3])] []) sel \<and>
     make_space failing_env ''/system/a'' ''/system/b'' 4 sel
       \<lparr>pw = test_world [(''/system/a'', [1, 2, 3])] [], retry = 1, made_copy = False\<rparr>
       = Inr \<lparr>pw = test_world [(''/system/a'', [1, 2, 3])] [], retry = 1, made_copy = False\<rparr> \<and>
     decode failing_env ''/system/b'' 4 sel (test_world [(''/system/a'', [1, 2, 3])] []) = Inr d \<and>
     result d \<noteq> 0 \<and>
     make_space failing_env ''/system/a'' ''/system/b'' 4 sel
       \<lparr>pw = unlink (dw d) ''/system/b.patch'', retry = 0, made_copy = False\<rparr> = Inr s2 \<and>
     decode failing_env ''/system/b'' 4 sel (pw s2) = Inr d2 \<and> result d2 \<noteq> 0 \<and>
     applypatch failing_env (test_world [(''/system/a'', [1, 2, 3])] []) ''/system/a'' ''/system/b''
       ''0102030900000000000000000000000000000000'' 4 [''0102030000000000000000000000000000000000'']
       [\<lparr>vtype = 2, vdata = patch_magic ''BSDIFF40'' @ [9]\<rparr>] = Return 1 (dw d2) \<and>
     files (dw d2) ''/system/b.patch'' \<noteq> None"
proof -
  let ?W = "test_world [(''/system/a'', [1, 2, 3])] []"
  let ?P = "\<lparr>vtype = 2, vdata = patch_magic ''BSDIFF40'' @ [9]\<rparr>"
  let ?S = "\<lparr>pw = ?W, retry = 1, made_copy = False\<rparr>"
  have ps: "ParseSha1 ''0102030900000000000000000000000000000000'' = Some (test_SHA [1, 2, 3, 9])"
    by code_simp
  from failing_run[of "test_SHA [1, 2, 3, 9]"] obtain sel d s2 d2 where
    cs: "choose_source failing_env ?W ''/system/a'' ''/system/b'' (test_SHA [1, 2, 3, 9])
           [''0102030000000000000000000000000000000000''] [?P] = Selected ?W sel"
    and ms: "make_space failing_env ''/system/a'' ''/system/b'' 4 sel ?S = Inr ?S"
    and dc: "decode failing_env ''/system/b'' 4 sel ?W = Inr d"
    and r: "result d \<noteq> 0"
    and ms2: "make_space failing_env ''/system/a'' ''/system/b'' 4 sel
       \<lparr>pw = unlink (dw d) ''/system/b.patch'', retry = 0, made_copy = False\<rparr> = Inr s2"
    and dc2: "decode failing_env ''/system/b'' 4 sel (pw s2) = Inr d2"
    and r2: "result d2 \<noteq> 0"
    by blast
  have dc': "decode failing_env ''/system/b'' 4 sel (pw ?S) = Inr d" using dc by simp
  note th = staging_file_after_failed_pass[OF ps cs _ _ _ ms dc']
  have "applypatch failing_env ?W ''/system/a'' ''/system/b'' ''0102030900000000000000000000000000000000'' 4 [''0102030000000000000000000000000000000000''] [?P]
          = Return 1 (dw d2) \<and> files (dw d2) ''/system/b.patch'' \<noteq> None"
    using th r ms2 dc2 r2 by auto
  then show ?thesis
    using ps cs ms dc r ms2 dc2 r2 by blast
qed

text \<open>
  The claim C1 as stated fails in both of its cases.  In the first run below the decoder
  succeeds and its output has another digest than the expected one; in the second the
  decoder fails in both passes.  Each run starts without a staging file and returns 1 with
  the staging file in place.
\<close>

theorem staging_file_left_behind:
  "files (test_world [(''/system/a'', [1, 2, 3])] []) ''/system/b.patch'' = None \<and>
   (\<exists>w'. applypatch test_env (test_world [(''/system/a'', [1, 2, 3])] []) ''/system/a'' ''/system/b''
          ''0102030000000000000000000000000000000000'' 4 [''0102030000000000000000000000000000000000'']
          [\<lparr>vtype = 2, vdata = patch_magic ''BSDIFF40'' @ [9]\<rparr>] = Return 1 w' \<and>
        (\<exists>f. files w' ''/system/b.patch'' = Some f \<and> bytes f = [1, 2, 3, 9])) \<and>
   (\<exists>w'. applypatch failing_env (test_world [(''/system/a'', [1, 2, 3])] []) ''/system/a'' ''/system/b''
          ''0102030900000000000000000000000000000000'' 4 [''0102030000000000000000000000000000000000'']
          [\<lparr>vtype = 2, vdata = patch_magic ''BSDIFF40'' @ [9]\<rparr>] = Return 1 w' \<and>
        files w' ''/system/b.patch'' \<noteq> None)"
proof -
  let ?W = "test_world [(''/system/a'', [1, 2, 3])] []"
  let ?P = "\<lparr>vtype = 2, vdata = patch_magic ''BSDIFF40'' @ [9]\<rparr>"
  let ?S = "\<lparr>pw = ?W, retry = 1, made_copy = False\<rparr>"
  have a: "files ?W ''/system/b.patch'' = None"
    by (simp add: test_world_files)
  have ps: "ParseSha1 ''0102030900000000000000000000000000000000'' = Some (test_SHA [1, 2, 3, 9])"
    by code_simp
  from failing_run[of "test_SHA [1, 2, 3, 9]"] obtain sel d s2 d2 where
    cs: "choose_source failing_env ?W ''/system/a'' ''/system/b'' (test_SHA [1, 2, 3, 9])
           [''0102030000000000000000000000000000000000''] [?P] = Selected ?W sel"
    and ms: "make_space failing_env ''/system/a'' ''/system/b'' 4 sel ?S = Inr ?S"
    and dc: "decode failing_env ''/system/b'' 4 sel ?W = Inr d"
    and r: "result d \<noteq> 0"
    and ms2: "make_space failing_env ''/system/a'' ''/system/b'' 4 sel
       \<lparr>pw = unlink (dw d) ''/system/b.patch'', retry = 0, made_copy = False\<rparr> = Inr s2"
    and dc2: "decode failing_env ''/system/b'' 4 sel (pw s2) = Inr d2"
    and r2: "result d2 \<noteq> 0"
    by blast
  have dc': "decode failing_env ''/system/b'' 4 sel (pw ?S) = Inr d" using dc by simp
  have fs: "take 4 ''/system/b'' \<noteq> ''MTD:''" by simp
  from decode_file_Inr[OF fs dc] have uo: "unlink_outname d = unlink (dw d) ''/system/b.patch''"
    by (simp add: unlink_outname_def)
  from decode_file_Inr[OF fs dc2] have st: "files (dw d2) ''/system/b.patch'' \<noteq> None"
    by auto
  have r0: "retry s2 = 0" using make_space_file_retry[OF fs ms2] by simp
  have "applypatch failing_env ?W ''/system/a'' ''/system/b'' ''0102030900000000000000000000000000000000'' 4 [''0102030000000000000000000000000000000000''] [?P]
      = patch_loop failing_env ''/system/a'' ''/system/b'' (test_SHA [1, 2, 3, 9]) 4 sel ?S"
    by (rule applypatch_loop[OF ps cs]) simp_all
  also have "\<dots> = patch_loop failing_env ''/system/a'' ''/system/b'' (test_SHA [1, 2, 3, 9]) 4 sel
       \<lparr>pw = unlink (dw d) ''/system/b.patch'', retry = 0, made_copy = False\<rparr>"
    using pass_failed_retry[OF ms dc' r, of "test_SHA [1, 2, 3, 9]"] uo by simp
  also have "\<dots> = Return 1 (dw d2)"
    by (rule pass_failed_last[OF ms2 dc2 r2 r0])
  finally show ?thesis using a mismatch_run st by blast
qed

section \<open>What a failed run leaves at the target\<close>














end
